theory Spec2Isabelle
  imports Complex_Main
begin

section \<open>Shared JavaScript helpers\<close>

text \<open>
  \<^verbatim>\<open>Array.prototype.slice(start)\<close> with one argument: a negative \<open>start\<close> counts from
  the end (clamped at the front of the array), a non-negative one is clamped at the
  length. \<^verbatim>\<open>xs.slice(-n)\<close> is \<open>js_slice (- n) xs\<close>; for \<open>n = 0\<close> the argument is
  \<open>-0\<close>, which JavaScript treats as \<open>0\<close>, so the whole array is returned.
\<close>

definition js_slice :: "int \<Rightarrow> 'a list \<Rightarrow> 'a list" where
  "js_slice start xs =
     (let len = int (length xs);
          k = (if start < 0 then max (len + start) 0 else min start len)
      in drop (nat k) xs)"

text \<open>The last \<open>n\<close> elements of a list, in list order; the whole list when it is shorter.\<close>

definition last_n :: "nat \<Rightarrow> 'a list \<Rightarrow> 'a list" where
  "last_n n xs = drop (length xs - n) xs"

text \<open>
  \<^verbatim>\<open>Math.round\<close> on a real number: the nearest integer, a half going up. It serves the
  rounding of distances, which the observer computes from square roots.
\<close>

definition js_round :: "real \<Rightarrow> int" where
  "js_round r = \<lfloor>r + 1 / 2\<rfloor>"

section \<open>Execution layer: the bot state machine\<close>

datatype BotState =
  IDLE | PLANNING | MINING | CRAFTING | NAVIGATING | COMBAT | EATING | GATHERING
  | BUILDING | ERROR

text \<open>
  A \<^verbatim>\<open>StateTransition\<close>; the fields \<^verbatim>\<open>from\<close>, \<^verbatim>\<open>to\<close>, \<^verbatim>\<open>timestamp\<close> and \<^verbatim>\<open>reason\<close> carry the
  prefix \<open>t_\<close>. A \<^verbatim>\<open>Date\<close> is its millisecond count.
\<close>

record StateTransition =
  t_from :: BotState
  t_to :: BotState
  t_timestamp :: nat
  t_reason :: "string option"

text \<open>
  A callback either returns or throws; which of the two may depend on the state it is
  called with. An absent callback is \<open>None\<close>.
\<close>

datatype callback_result = Returns | Throws

record StateConfig =
  allowedTransitions :: "BotState \<rightharpoonup> BotState list"
  onEnter :: "(BotState \<Rightarrow> callback_result) option"
  onExit :: "(BotState \<Rightarrow> callback_result) option"

record StateMachine =
  currentState :: BotState
  previousState :: "BotState option"
  history :: "StateTransition list"
  maxHistorySize :: nat
  config :: StateConfig

definition DEFAULT_TRANSITIONS :: "BotState \<rightharpoonup> BotState list" where
  "DEFAULT_TRANSITIONS = map_of
     [(IDLE, [PLANNING, EATING, ERROR]),
      (PLANNING, [MINING, CRAFTING, NAVIGATING, GATHERING, COMBAT, IDLE, ERROR]),
      (MINING, [IDLE, NAVIGATING, EATING, COMBAT, ERROR]),
      (CRAFTING, [IDLE, NAVIGATING, ERROR]),
      (NAVIGATING, [IDLE, MINING, CRAFTING, GATHERING, BUILDING, COMBAT, ERROR]),
      (COMBAT, [IDLE, NAVIGATING, EATING, ERROR]),
      (EATING, [IDLE, MINING, NAVIGATING, COMBAT, ERROR]),
      (GATHERING, [IDLE, NAVIGATING, MINING, ERROR]),
      (BUILDING, [IDLE, NAVIGATING, ERROR]),
      (ERROR, [IDLE, PLANNING])]"

text \<open>
  The constructor: the machine starts in \<open>IDLE\<close> with an empty history; a missing
  transition table falls back to the default one.
\<close>

definition new_StateMachine ::
  "(BotState \<rightharpoonup> BotState list) option \<Rightarrow> (BotState \<Rightarrow> callback_result) option \<Rightarrow>
   (BotState \<Rightarrow> callback_result) option \<Rightarrow> StateMachine" where
  "new_StateMachine tbl enter exit =
     \<lparr> currentState = IDLE, previousState = None, history = [], maxHistorySize = 100,
       config = \<lparr> allowedTransitions = (case tbl of None \<Rightarrow> DEFAULT_TRANSITIONS | Some t \<Rightarrow> t),
                  onEnter = enter, onExit = exit \<rparr> \<rparr>"

definition getCurrentState :: "StateMachine \<Rightarrow> BotState" where
  "getCurrentState sm = currentState sm"

definition canTransition :: "StateMachine \<Rightarrow> BotState \<Rightarrow> bool" where
  "canTransition sm to =
     (case allowedTransitions (config sm) (currentState sm) of
        None \<Rightarrow> False
      | Some allowedStates \<Rightarrow> to \<in> set allowedStates)"

definition run_callback :: "(BotState \<Rightarrow> callback_result) option \<Rightarrow> BotState \<Rightarrow> callback_result" where
  "run_callback cb s = (case cb of None \<Rightarrow> Returns | Some f \<Rightarrow> f s)"

text \<open>
  \<^verbatim>\<open>transition(to, reason)\<close> at clock reading \<open>now\<close>. The body of the \<^verbatim>\<open>try\<close> runs
  \<^verbatim>\<open>onExit\<close>, updates the state, records and trims the history, then runs \<^verbatim>\<open>onEnter\<close>; the
  \<^verbatim>\<open>catch\<close> handler assigns \<^verbatim>\<open>currentState = from\<close> and nothing else.
\<close>

definition transition :: "nat \<Rightarrow> BotState \<Rightarrow> string option \<Rightarrow> StateMachine \<Rightarrow> bool \<times> StateMachine" where
  "transition now to reason sm =
     (if currentState sm = to then (True, sm)
      else if \<not> canTransition sm to then (False, sm)
      else
        let frm = currentState sm in
        (case run_callback (onExit (config sm)) frm of
           Throws \<Rightarrow> (False, sm\<lparr>currentState := frm\<rparr>)
         | Returns \<Rightarrow>
             let sm1 = sm\<lparr>previousState := Some frm, currentState := to\<rparr>;
                 tr = \<lparr>t_from = frm, t_to = to, t_timestamp = now, t_reason = reason\<rparr>;
                 sm2 = sm1\<lparr>history := history sm1 @ [tr]\<rparr>;
                 sm3 = (if length (history sm2) > maxHistorySize sm2
                        then sm2\<lparr>history := js_slice (- int (maxHistorySize sm2)) (history sm2)\<rparr>
                        else sm2)
             in (case run_callback (onEnter (config sm)) to of
                   Throws \<Rightarrow> (False, sm3\<lparr>currentState := frm\<rparr>)
                 | Returns \<Rightarrow> (True, sm3))))"

definition transitionToError :: "nat \<Rightarrow> string \<Rightarrow> StateMachine \<Rightarrow> StateMachine" where
  "transitionToError now reason sm = snd (transition now ERROR (Some reason) sm)"

text \<open>\<^verbatim>\<open>reason || 'Returning to idle'\<close>: an absent or empty reason takes the default.\<close>

definition returnToIdle :: "nat \<Rightarrow> string option \<Rightarrow> StateMachine \<Rightarrow> bool \<times> StateMachine" where
  "returnToIdle now reason sm =
     transition now IDLE
       (Some (case reason of None \<Rightarrow> ''Returning to idle''
              | Some r \<Rightarrow> if r = [] then ''Returning to idle'' else r)) sm"

definition getHistory :: "StateMachine \<Rightarrow> StateTransition list" where
  "getHistory sm = history sm"

definition clearHistory :: "StateMachine \<Rightarrow> StateMachine" where
  "clearHistory sm = sm\<lparr>history := []\<rparr>"

definition reset :: "StateMachine \<Rightarrow> StateMachine" where
  "reset sm = sm\<lparr>previousState := Some (currentState sm), currentState := IDLE, history := []\<rparr>"


text \<open>The calls that act on a machine, and a run of them.\<close>

datatype sm_op =
  Transition nat BotState "string option"
  | TransitionToError nat string
  | ReturnToIdle nat "string option"
  | Reset
  | ClearHistory

fun apply_sm_op :: "sm_op \<Rightarrow> StateMachine \<Rightarrow> StateMachine" where
  "apply_sm_op (Transition now to reason) sm = snd (transition now to reason sm)"
| "apply_sm_op (TransitionToError now reason) sm = transitionToError now reason sm"
| "apply_sm_op (ReturnToIdle now reason) sm = snd (returnToIdle now reason sm)"
| "apply_sm_op Reset sm = reset sm"
| "apply_sm_op ClearHistory sm = clearHistory sm"

text \<open>The two halves of the history invariant.\<close>

definition history_bounded :: "StateMachine \<Rightarrow> bool" where
  "history_bounded sm = (maxHistorySize sm = 100 \<and> length (history sm) \<le> 100)"

definition last_to_current :: "StateMachine \<Rightarrow> bool" where
  "last_to_current sm = (history sm = [] \<or> t_to (last (history sm)) = currentState sm)"

text \<open>
  The seed scenario: a machine with the default table and no callbacks, taken through
  \<^verbatim>\<open>transition(planning, "plan")\<close>, \<^verbatim>\<open>transition(mining)\<close>, \<^verbatim>\<open>transition(eating)\<close> and
  \<^verbatim>\<open>returnToIdle()\<close> at the clock readings 1 to 4.
\<close>

definition chain_planning :: "bool \<times> StateMachine" where
  "chain_planning = transition 1 PLANNING (Some ''plan'') (new_StateMachine None None None)"

definition chain_mining :: "bool \<times> StateMachine" where
  "chain_mining = transition 2 MINING None (snd chain_planning)"

definition chain_eating :: "bool \<times> StateMachine" where
  "chain_eating = transition 3 EATING None (snd chain_mining)"

definition chain_idle :: "bool \<times> StateMachine" where
  "chain_idle = returnToIdle 4 None (snd chain_eating)"

text \<open>A machine with the default table whose \<^verbatim>\<open>onEnter\<close> callback throws.\<close>

definition throwing_enter_machine :: StateMachine where
  "throwing_enter_machine = new_StateMachine None (Some (\<lambda>s. Throws)) None"

section \<open>Persistence port: the message table\<close>

datatype Role = System | User | Assistant

record Message =
  role :: Role
  content :: string

text \<open>
  The \<^verbatim>\<open>messages\<close> table: rows \<open>(id, message)\<close> in insertion order, and the
  \<^verbatim>\<open>AUTOINCREMENT\<close> counter, which is the largest id ever handed out.
\<close>

record DatabaseManager =
  message_rows :: "(nat \<times> Message) list"
  message_seq :: nat

definition new_DatabaseManager :: DatabaseManager where
  "new_DatabaseManager = \<lparr> message_rows = [], message_seq = 0 \<rparr>"

text \<open>\<^verbatim>\<open>insertMessage\<close> returns the new row's id and the updated database.\<close>

definition insertMessage :: "Message \<Rightarrow> DatabaseManager \<Rightarrow> nat \<times> DatabaseManager" where
  "insertMessage message db =
     (let lastId = Suc (message_seq db)
      in (lastId,
          db\<lparr> message_rows := message_rows db @ [(lastId, \<lparr>role = role message, content = content message\<rparr>)],
              message_seq := lastId \<rparr>))"

text \<open>
  \<^verbatim>\<open>SELECT role, content FROM messages ORDER BY id DESC LIMIT $limit\<close>, the limit being a
  row count.
\<close>

definition getRecentMessages :: "nat \<Rightarrow> DatabaseManager \<Rightarrow> Message list" where
  "getRecentMessages limit db =
     map (\<lambda>row. \<lparr>role = role (snd row), content = content (snd row)\<rparr>)
       (take limit (rev (sort_key fst (message_rows db))))"

text \<open>The database after the messages \<open>old\<close> have been inserted into a new one.\<close>

definition stored_db :: "Message list \<Rightarrow> DatabaseManager" where
  "stored_db old = fold (\<lambda>message db. snd (insertMessage message db)) old new_DatabaseManager"

text \<open>Row ids ascend in insertion order and none exceeds the counter.\<close>

definition db_sorted :: "DatabaseManager \<Rightarrow> bool" where
  "db_sorted db =
     (sorted (map fst (message_rows db)) \<and> list_all (\<lambda>i. i \<le> message_seq db) (map fst (message_rows db)))"

section \<open>Tactical layer: the memory manager\<close>

record MemoryConfig =
  maxTokens :: int
  keepMessages :: int

record TokenUsage =
  prompt_tokens :: int
  completion_tokens :: int
  total_tokens :: int

definition zero_usage :: TokenUsage where
  "zero_usage = \<lparr> prompt_tokens = 0, completion_tokens = 0, total_tokens = 0 \<rparr>"

text \<open>
  The manager's fields that its message, token and persistence operations read or
  write; \<open>mm_db\<close> and \<open>mm_config\<close> are the constructor's \<^verbatim>\<open>db\<close> and \<^verbatim>\<open>config\<close>.
\<close>

record MemoryManager =
  messages :: "Message list"
  systemMessage :: "Message option"
  tokenUsage :: TokenUsage
  mm_db :: DatabaseManager
  mm_config :: MemoryConfig

definition new_MemoryManager :: "DatabaseManager \<Rightarrow> MemoryConfig \<Rightarrow> MemoryManager" where
  "new_MemoryManager db cfg =
     \<lparr> messages = [], systemMessage = None, tokenUsage = zero_usage, mm_db = db, mm_config = cfg \<rparr>"

definition getMessages :: "MemoryManager \<Rightarrow> Message list" where
  "getMessages mm = messages mm"

definition getTotalTokens :: "MemoryManager \<Rightarrow> int" where
  "getTotalTokens mm = prompt_tokens (tokenUsage mm)"

definition updateTokenUsage :: "TokenUsage \<Rightarrow> MemoryManager \<Rightarrow> MemoryManager" where
  "updateTokenUsage u mm = mm\<lparr>tokenUsage := u\<rparr>"

definition trimToCount :: "int \<Rightarrow> MemoryManager \<Rightarrow> MemoryManager" where
  "trimToCount count mm =
     (if int (length (messages mm)) > count
      then mm\<lparr>messages := js_slice (- count) (messages mm)\<rparr>
      else mm)"

definition autoTrim :: "MemoryManager \<Rightarrow> MemoryManager" where
  "autoTrim mm =
     (let totalTokens = getTotalTokens mm
      in if totalTokens > maxTokens (mm_config mm)
         then trimToCount (keepMessages (mm_config mm)) mm
         else mm)"

definition addMessage :: "Message \<Rightarrow> MemoryManager \<Rightarrow> MemoryManager" where
  "addMessage message mm = autoTrim (mm\<lparr>messages := messages mm @ [message]\<rparr>)"

text \<open>\<^verbatim>\<open>saveToDatabase\<close>: one \<^verbatim>\<open>insertMessage\<close> per in-memory message, in list order.\<close>

definition saveToDatabase :: "MemoryManager \<Rightarrow> MemoryManager" where
  "saveToDatabase mm =
     mm\<lparr>mm_db := fold (\<lambda>message db. snd (insertMessage message db)) (messages mm) (mm_db mm)\<rparr>"

text \<open>
  \<^verbatim>\<open>loadFromDatabase(limit)\<close> assigns the port's answer to the message list as it
  comes.
\<close>

definition loadFromDatabase :: "nat \<Rightarrow> MemoryManager \<Rightarrow> MemoryManager" where
  "loadFromDatabase limit mm = mm\<lparr>messages := getRecentMessages limit (mm_db mm)\<rparr>"

definition clear :: "MemoryManager \<Rightarrow> MemoryManager" where
  "clear mm = mm\<lparr>messages := [], tokenUsage := zero_usage\<rparr>"

text \<open>A manager on a new database holding a user message and an assistant message.\<close>

definition roundtrip_example :: MemoryManager where
  "roundtrip_example =
     addMessage \<lparr>role = Assistant, content = ''second''\<rparr>
       (addMessage \<lparr>role = User, content = ''first''\<rparr>
          (new_MemoryManager new_DatabaseManager \<lparr>maxTokens = 1000, keepMessages = 10\<rparr>))"

text \<open>
  The same messages in a manager with \<open>maxTokens = 100\<close> and \<open>keepMessages = 1\<close> whose
  recorded usage is 200 prompt tokens.
\<close>

definition over_budget_example :: MemoryManager where
  "over_budget_example =
     updateTokenUsage \<lparr>prompt_tokens = 200, completion_tokens = 0, total_tokens = 200\<rparr>
       (roundtrip_example\<lparr>mm_config := \<lparr>maxTokens = 100, keepMessages = 1\<rparr>\<rparr>)"

section \<open>Strategic layer: the streaming tool-calling exchange\<close>

record ToolCall =
  tc_id :: string
  tc_name :: string
  tc_arguments :: "(string \<times> string) list"

text \<open>
  What the LLM library hands to the \<^verbatim>\<open>onToolCall\<close> handler: an optional id, the tool
  name and the parameters.
\<close>

record StreamCall =
  call_id :: "string option"
  call_name :: string
  call_params :: "(string \<times> string) list"

text \<open>
  One exchange as the client sees it: the stream's \<^verbatim>\<open>data\<close> chunks and the handler
  invocations in arrival order (each with the clock reading at the invocation), closed
  by \<^verbatim>\<open>end\<close> or \<^verbatim>\<open>error\<close>. Opening the stream may itself fail.
\<close>

datatype stream_event = Data string | ToolCallEvent StreamCall nat

datatype stream_end = StreamEnd | StreamError string

type_synonym 'tool llm_service =
  "Message list \<Rightarrow> 'tool list \<Rightarrow> string + (stream_event list \<times> stream_end)"

record ChatResponse =
  resp_content :: string
  usage :: "TokenUsage option"
  toolCalls :: "ToolCall list option"

definition formatMessages :: "Message list \<Rightarrow> Message list" where
  "formatMessages msgs = map (\<lambda>msg. \<lparr>role = role msg, content = content msg\<rparr>) msgs"

definition formatTools :: "'tool list \<Rightarrow> 'tool list" where
  "formatTools tools = tools"

definition digit_char :: "nat \<Rightarrow> char" where
  "digit_char n = char_of (48 + n)"

fun decimal :: "nat \<Rightarrow> string" where
  "decimal n = (if n < 10 then [digit_char n] else decimal (n div 10) @ [digit_char (n mod 10)])"

declare decimal.simps [simp del]

text \<open>
  The handler appends the call record; the id is the model's when it is present and
  non-empty, else the text \<^verbatim>\<open>call_\<close> followed by the clock reading. The tool's own
  output goes back to the LLM library and does not enter the response.
\<close>

definition onToolCall :: "StreamCall \<Rightarrow> nat \<Rightarrow> ToolCall list \<Rightarrow> ToolCall list" where
  "onToolCall call now calls =
     (let toolCallId = (case call_id call of
                          None \<Rightarrow> ''call_'' @ decimal now
                        | Some i \<Rightarrow> if i = [] then ''call_'' @ decimal now else i)
      in calls @ [\<lparr>tc_id = toolCallId, tc_name = call_name call, tc_arguments = call_params call\<rparr>])"

text \<open>
  The \<^verbatim>\<open>data\<close> listener. \<open>delta_content\<close> stands for the host's \<^verbatim>\<open>JSON.parse\<close> followed by
  the lookup of \<^verbatim>\<open>choices[0].delta.content\<close>: it answers \<open>None\<close> when parsing throws or
  the content is absent or falsy. A chunk without the prefix \<^verbatim>\<open>data: \<close> is skipped.
\<close>

definition on_data :: "(string \<Rightarrow> string option) \<Rightarrow> string \<Rightarrow> string list \<Rightarrow> string list" where
  "on_data delta_content chunkStr contentParts =
     (if take 6 chunkStr \<noteq> ''data: '' then contentParts
      else (case delta_content (drop 6 chunkStr) of
              None \<Rightarrow> contentParts
            | Some c \<Rightarrow> contentParts @ [c]))"

fun process_stream ::
  "(string \<Rightarrow> string option) \<Rightarrow> stream_event list \<Rightarrow> string list \<times> ToolCall list \<Rightarrow>
   string list \<times> ToolCall list" where
  "process_stream dc [] acc = acc"
| "process_stream dc (Data chunk # evs) (parts, calls) =
     process_stream dc evs (on_data dc chunk parts, calls)"
| "process_stream dc (ToolCallEvent call now # evs) (parts, calls) =
     process_stream dc evs (parts, onToolCall call now calls)"

text \<open>
  \<^verbatim>\<open>chatWithTools\<close>: \<open>Inl\<close> is the error rethrown by the outer \<^verbatim>\<open>catch\<close>, \<open>Inr\<close> the
  response returned after the stream has ended.
\<close>

definition chatWithTools ::
  "(string \<Rightarrow> string option) \<Rightarrow> 'tool llm_service \<Rightarrow> Message list \<Rightarrow> 'tool list \<Rightarrow>
   string + ChatResponse" where
  "chatWithTools dc service msgs tools =
     (case service (formatMessages msgs) (formatTools tools) of
        Inl e \<Rightarrow> Inl e
      | Inr (events, fin) \<Rightarrow>
          (let (contentParts, calls) = process_stream dc events ([], [])
           in case fin of
                StreamError e \<Rightarrow> Inl e
              | StreamEnd \<Rightarrow>
                  Inr \<lparr> resp_content = concat contentParts,
                        usage = Some \<lparr> prompt_tokens = 0, completion_tokens = 0, total_tokens = 0 \<rparr>,
                        toolCalls = (if length calls > 0 then Some calls else None) \<rparr>))"

section \<open>The decision cycle's use of the memory manager\<close>

text \<open>
  The part of \<^verbatim>\<open>decisionCycle\<close> that touches the memory manager's messages and token
  usage, from the situation prompt on: append the prompt as a user message, run the
  exchange on the stored messages, take over the response's usage when it carries one,
  append non-empty content as an assistant message, and save. A failed exchange leaves
  the manager as it was after the prompt was appended.
\<close>

definition decisionCycle_memory ::
  "(string \<Rightarrow> string option) \<Rightarrow> 'tool llm_service \<Rightarrow> 'tool list \<Rightarrow> string \<Rightarrow>
   MemoryManager \<Rightarrow> MemoryManager" where
  "decisionCycle_memory dc service tools situationPrompt mm =
     (let mm1 = addMessage \<lparr>role = User, content = situationPrompt\<rparr> mm;
          msgs = getMessages mm1
      in case chatWithTools dc service msgs tools of
           Inl e \<Rightarrow> mm1
         | Inr response \<Rightarrow>
             (let mm2 = (case usage response of
                           Some u \<Rightarrow> updateTokenUsage u mm1
                         | None \<Rightarrow> mm1);
                  mm3 = (if resp_content response \<noteq> []
                         then addMessage \<lparr>role = Assistant, content = resp_content response\<rparr> mm2
                         else mm2)
              in saveToDatabase mm3))"

text \<open>A run of decision cycles, each with its own prompt and its own exchange.\<close>

fun decision_cycles ::
  "(string \<Rightarrow> string option) \<Rightarrow> 'tool list \<Rightarrow> (string \<times> 'tool llm_service) list \<Rightarrow>
   MemoryManager \<Rightarrow> MemoryManager" where
  "decision_cycles dc tools [] mm = mm"
| "decision_cycles dc tools ((prompt, service) # rest) mm =
     decision_cycles dc tools rest (decisionCycle_memory dc service tools prompt mm)"

text \<open>
  For comparison, the same cycle with the token-usage update left out, and a run of such
  cycles.
\<close>

definition decisionCycle_memory_without_update ::
  "(string \<Rightarrow> string option) \<Rightarrow> 'tool llm_service \<Rightarrow> 'tool list \<Rightarrow> string \<Rightarrow>
   MemoryManager \<Rightarrow> MemoryManager" where
  "decisionCycle_memory_without_update dc service tools situationPrompt mm =
     (let mm1 = addMessage \<lparr>role = User, content = situationPrompt\<rparr> mm;
          msgs = getMessages mm1
      in case chatWithTools dc service msgs tools of
           Inl e \<Rightarrow> mm1
         | Inr response \<Rightarrow>
             (let mm3 = (if resp_content response \<noteq> []
                         then addMessage \<lparr>role = Assistant, content = resp_content response\<rparr> mm1
                         else mm1)
              in saveToDatabase mm3))"

fun decision_cycles_without_update ::
  "(string \<Rightarrow> string option) \<Rightarrow> 'tool list \<Rightarrow> (string \<times> 'tool llm_service) list \<Rightarrow>
   MemoryManager \<Rightarrow> MemoryManager" where
  "decision_cycles_without_update dc tools [] mm = mm"
| "decision_cycles_without_update dc tools ((prompt, service) # rest) mm =
     decision_cycles_without_update dc tools rest
       (decisionCycle_memory_without_update dc service tools prompt mm)"

text \<open>
  The conversation a run of decision cycles builds when nothing is ever trimmed: each
  cycle appends its prompt and, after a successful exchange with non-empty content, the
  assistant's answer.
\<close>

fun transcript ::
  "(string \<Rightarrow> string option) \<Rightarrow> 'tool list \<Rightarrow> (string \<times> 'tool llm_service) list \<Rightarrow>
   Message list \<Rightarrow> Message list" where
  "transcript dc tools [] ms = ms"
| "transcript dc tools ((prompt, service) # rest) ms =
     (let ms1 = ms @ [\<lparr>role = User, content = prompt\<rparr>]
      in case chatWithTools dc service ms1 tools of
           Inl e \<Rightarrow> transcript dc tools rest ms1
         | Inr response \<Rightarrow>
             transcript dc tools rest
               (if resp_content response \<noteq> []
                then ms1 @ [\<lparr>role = Assistant, content = resp_content response\<rparr>]
                else ms1))"

text \<open>
  An example exchange: the stream carries one text chunk and one tool call and ends; the
  chunk's payload is taken as its content.
\<close>

definition example_events :: "stream_event list" where
  "example_events =
     [Data ''data: ok'',
      ToolCallEvent \<lparr>call_id = None, call_name = ''get_position'', call_params = []\<rparr> 7]"

definition example_service :: "unit llm_service" where
  "example_service msgs tools = Inr (example_events, StreamEnd)"

definition example_response :: ChatResponse where
  "example_response =
     \<lparr> resp_content = ''ok'', usage = Some zero_usage,
       toolCalls = Some [\<lparr>tc_id = ''call_7'', tc_name = ''get_position'', tc_arguments = []\<rparr>] \<rparr>"

section \<open>Tactical layer: the task decomposer\<close>

datatype TaskStatus = Pending | InProgress | Completed | Failed | Blocked

text \<open>
  A \<^verbatim>\<open>Task\<close>. The fields \<^verbatim>\<open>id\<close>, \<^verbatim>\<open>description\<close> and \<^verbatim>\<open>error\<close> carry the prefix
  \<open>task_\<close>; dates are millisecond counts, optional fields are options.
\<close>

record Task =
  task_id :: string
  goalId :: string
  task_description :: string
  action :: string
  parameters :: "(string \<times> string) list"
  priority :: int
  status :: TaskStatus
  dependencies :: "string list"
  estimatedDuration :: "nat option"
  createdAt :: nat
  completedAt :: "nat option"
  task_error :: "string option"

text \<open>
  The decomposer's \<^verbatim>\<open>Map\<close> from task id to task, as the list of its entries in
  insertion order. \<^verbatim>\<open>Map.set\<close> on a present key replaces the value in place, on a new
  key it appends.
\<close>

type_synonym TaskDecomposer = "(string \<times> Task) list"

fun map_set :: "'k \<Rightarrow> 'v \<Rightarrow> ('k \<times> 'v) list \<Rightarrow> ('k \<times> 'v) list" where
  "map_set k v [] = [(k, v)]"
| "map_set k v (p # ps) = (if fst p = k then (k, v) # ps else p # map_set k v ps)"

definition getTask :: "TaskDecomposer \<Rightarrow> string \<Rightarrow> Task option" where
  "getTask tasks taskId = map_of tasks taskId"

text \<open>Storing decomposed tasks: one \<^verbatim>\<open>Map.set\<close> per task, in order.\<close>

definition store_tasks :: "Task list \<Rightarrow> TaskDecomposer \<Rightarrow> TaskDecomposer" where
  "store_tasks ts tasks = fold (\<lambda>task m. map_set (task_id task) task m) ts tasks"

text \<open>
  \<^verbatim>\<open>getPendingTasks\<close>: the pending tasks sorted by ascending priority; the sort is stable,
  as \<^verbatim>\<open>Array.prototype.sort\<close> is.
\<close>

definition getPendingTasks :: "TaskDecomposer \<Rightarrow> Task list" where
  "getPendingTasks tasks = sort_key priority (filter (\<lambda>task. status task = Pending) (map snd tasks))"

definition canExecuteTask :: "TaskDecomposer \<Rightarrow> Task \<Rightarrow> bool" where
  "canExecuteTask tasks task =
     (if status task \<noteq> Pending then False
      else list_all (\<lambda>depId. case map_of tasks depId of
                                None \<Rightarrow> False
                              | Some depTask \<Rightarrow> status depTask = Completed)
             (dependencies task))"

definition getNextExecutableTask :: "TaskDecomposer \<Rightarrow> Task option" where
  "getNextExecutableTask tasks = find (canExecuteTask tasks) (getPendingTasks tasks)"

text \<open>
  \<^verbatim>\<open>updateTaskStatus(taskId, status, error)\<close> at clock reading \<open>now\<close>. An unknown id
  changes nothing. The error is stored when it is given and non-empty; \<^verbatim>\<open>completedAt\<close> is
  assigned when the new status is \<^verbatim>\<open>completed\<close>, and there is no other assignment to it.
\<close>

definition updateTaskStatus ::
  "nat \<Rightarrow> string \<Rightarrow> TaskStatus \<Rightarrow> string option \<Rightarrow> TaskDecomposer \<Rightarrow> TaskDecomposer" where
  "updateTaskStatus now taskId st err tasks =
     (case map_of tasks taskId of
        None \<Rightarrow> tasks
      | Some task \<Rightarrow>
          (let t1 = task\<lparr>status := st\<rparr>;
               t2 = (case err of
                       None \<Rightarrow> t1
                     | Some e \<Rightarrow> if e = [] then t1 else t1\<lparr>task_error := Some e\<rparr>);
               t3 = (if st = Completed then t2\<lparr>completedAt := Some now\<rparr> else t2)
           in map_set taskId t3 tasks))"

definition startTask :: "string \<Rightarrow> TaskDecomposer \<Rightarrow> bool \<times> TaskDecomposer" where
  "startTask taskId tasks =
     (case map_of tasks taskId of
        None \<Rightarrow> (False, tasks)
      | Some task \<Rightarrow>
          if \<not> canExecuteTask tasks task then (False, tasks)
          else (True, map_set taskId (task\<lparr>status := InProgress\<rparr>) tasks))"

definition completeTask :: "nat \<Rightarrow> string \<Rightarrow> TaskDecomposer \<Rightarrow> TaskDecomposer" where
  "completeTask now taskId tasks = updateTaskStatus now taskId Completed None tasks"

definition failTask :: "nat \<Rightarrow> string \<Rightarrow> string \<Rightarrow> TaskDecomposer \<Rightarrow> TaskDecomposer" where
  "failTask now taskId err tasks = updateTaskStatus now taskId Failed (Some err) tasks"

record TaskStatistics =
  st_total :: nat
  st_pending :: nat
  st_inProgress :: nat
  st_completed :: nat
  st_failed :: nat
  st_blocked :: nat

text \<open>The optional goal id filters when it is given and non-empty.\<close>

definition getTaskStatistics :: "string option \<Rightarrow> TaskDecomposer \<Rightarrow> TaskStatistics" where
  "getTaskStatistics gid tasks =
     (let all = map snd tasks;
          ts = (case gid of
                  None \<Rightarrow> all
                | Some g \<Rightarrow> if g = [] then all else filter (\<lambda>t. goalId t = g) all);
          count = (\<lambda>s. length (filter (\<lambda>t. status t = s) ts))
      in \<lparr> st_total = length ts, st_pending = count Pending, st_inProgress = count InProgress,
           st_completed = count Completed, st_failed = count Failed, st_blocked = count Blocked \<rparr>)"

text \<open>
  Double-precision arithmetic for \<^verbatim>\<open>getProgress\<close>. A positive double in the normal range
  is \<open>m * 2 ^ e\<close> with \<open>2 ^ 52 \<le> m < 2 ^ 53\<close>, and an operation returns the double
  nearest to its exact result, a tie going to the even mantissa. Values are kept as
  fractions \<open>(numerator, denominator)\<close> of natural numbers. \<open>nearest_double a b\<close> is the
  double nearest to \<open>a / b\<close> for \<open>b > 0\<close>: the fraction is scaled by the power of two
  that brings it into \<open>[2 ^ 52, 2 ^ 53)\<close>, rounded to an integer, and scaled back.
  The counts of a task map are integers far below \<open>2 ^ 53\<close>, hence exact as doubles,
  and neither subnormal results nor overflow arise for them.
\<close>

fun bit_length :: "nat \<Rightarrow> nat" where
  "bit_length n = (if n = 0 then 0 else Suc (bit_length (n div 2)))"

declare bit_length.simps [simp del]

definition round_half_even_div :: "nat \<Rightarrow> nat \<Rightarrow> nat" where
  "round_half_even_div n d =
     (let q = n div d; r = n mod d
      in if 2 * r < d then q
         else if 2 * r > d then q + 1
         else if even q then q else q + 1)"

definition scale_ratio :: "nat \<Rightarrow> nat \<Rightarrow> int \<Rightarrow> nat \<times> nat" where
  "scale_ratio a b k = (if 0 \<le> k then (a * 2 ^ nat k, b) else (a, b * 2 ^ nat (- k)))"

definition nearest_double :: "nat \<Rightarrow> nat \<Rightarrow> nat \<times> nat" where
  "nearest_double a b =
     (if a = 0 then (0, 1)
      else
        let k0 = 53 + int (bit_length b) - int (bit_length a);
            k = (if fst (scale_ratio a b k0) \<ge> 2 ^ 53 * snd (scale_ratio a b k0)
                 then k0 - 1 else k0);
            m = round_half_even_div (fst (scale_ratio a b k)) (snd (scale_ratio a b k))
        in if 0 \<le> k then (m, 2 ^ nat k) else (m * 2 ^ nat (- k), 1))"

text \<open>\<^verbatim>\<open>Math.round\<close> of a non-negative fraction: the nearest integer, a half going up.\<close>

definition math_round :: "nat \<times> nat \<Rightarrow> int" where
  "math_round x = int ((2 * fst x + snd x) div (2 * snd x))"

text \<open>
  \<^verbatim>\<open>Math.round((completed / total) * 100)\<close>: the quotient is rounded to a double, its
  product with 100 is rounded to a double, and that is rounded to an integer.
\<close>

definition rounded_percent :: "nat \<Rightarrow> nat \<Rightarrow> int" where
  "rounded_percent completed all =
     (let ratio = nearest_double completed all;
          percent = nearest_double (fst ratio * 100) (snd ratio)
      in math_round percent)"

definition getProgress :: "string option \<Rightarrow> TaskDecomposer \<Rightarrow> int" where
  "getProgress gid tasks =
     (let stats = getTaskStatistics gid tasks
      in if st_total stats = 0 then 0
         else rounded_percent (st_completed stats) (st_total stats))"

text \<open>The calls that change a task's status, and a run of them.\<close>

datatype task_op =
  UpdateTaskStatus nat string TaskStatus "string option"
  | StartTask string
  | CompleteTask nat string
  | FailTask nat string string

fun apply_task_op :: "task_op \<Rightarrow> TaskDecomposer \<Rightarrow> TaskDecomposer" where
  "apply_task_op (UpdateTaskStatus now i st err) tasks = updateTaskStatus now i st err tasks"
| "apply_task_op (StartTask i) tasks = snd (startTask i tasks)"
| "apply_task_op (CompleteTask now i) tasks = completeTask now i tasks"
| "apply_task_op (FailTask now i err) tasks = failTask now i err tasks"

text \<open>Every completed task of the decomposer carries a completion date.\<close>

definition completed_has_date :: "TaskDecomposer \<Rightarrow> bool" where
  "completed_has_date tasks =
     list_all (\<lambda>kt. status (snd kt) = Completed \<longrightarrow> completedAt (snd kt) \<noteq> None) tasks"

text \<open>
  The seed scenario of the task chain: a goal \<^verbatim>\<open>goal_1\<close> decomposed into three pending
  tasks, the second depending on the first and the third on the second, stored in an
  empty decomposer.
\<close>

definition dag_task :: "string \<Rightarrow> string list \<Rightarrow> int \<Rightarrow> Task" where
  "dag_task i deps p =
     \<lparr> task_id = i, goalId = ''goal_1'', task_description = ''step'', action = ''mine_block'',
       parameters = [], priority = p, status = Pending, dependencies = deps,
       estimatedDuration = Some 10, createdAt = 0, completedAt = None, task_error = None \<rparr>"

definition dag_t1 :: Task where
  "dag_t1 = dag_task ''goal_1_task_1'' [] 1"

definition dag_t2 :: Task where
  "dag_t2 = dag_task ''goal_1_task_2'' [''goal_1_task_1''] 2"

definition dag_t3 :: Task where
  "dag_t3 = dag_task ''goal_1_task_3'' [''goal_1_task_2''] 3"

definition dag_example :: TaskDecomposer where
  "dag_example = store_tasks [dag_t1, dag_t2, dag_t3] []"

section \<open>Perception layer: the world observer\<close>

record Vec3 =
  vx :: real
  vy :: real
  vz :: real

definition offset :: "Vec3 \<Rightarrow> real \<Rightarrow> real \<Rightarrow> real \<Rightarrow> Vec3" where
  "offset p dx dy dz = \<lparr> vx = vx p + dx, vy = vy p + dy, vz = vz p + dz \<rparr>"

definition distanceTo :: "Vec3 \<Rightarrow> Vec3 \<Rightarrow> real" where
  "distanceTo p q = sqrt ((vx q - vx p)\<^sup>2 + (vy q - vy p)\<^sup>2 + (vz q - vz p)\<^sup>2)"

record Block =
  block_name :: string
  boundingBox :: string

datatype BlockCategory = Ore | Wood | Stone | Dirt | Other

record BlockObservation =
  bo_name :: string
  bo_position :: Vec3
  bo_distance :: real
  bo_type :: BlockCategory

record EntityObservation =
  eo_type :: string
  eo_name :: string
  eo_position :: Vec3
  eo_distance :: real
  isHostile :: bool
  eo_health :: "real option"

datatype DangerType = Lava | Cliff | HostileMob | LowHealth | LowFood

datatype Severity = Low | Medium | High | Critical

text \<open>
  A danger's description is a template string with values interpolated; the model keeps
  the template and the values: \<^verbatim>\<open>Critical health: h/20\<close>, \<^verbatim>\<open>Low health: h/20\<close>,
  \<^verbatim>\<open>Critical food: f/20\<close>, \<^verbatim>\<open>Low food: f/20\<close>, \<^verbatim>\<open>Lava d m away\<close>, \<^verbatim>\<open>name d m away\<close> and
  \<^verbatim>\<open>Dangerous drop n blocks nearby\<close>.
\<close>

datatype Description =
  CriticalHealthText real
  | LowHealthText real
  | CriticalFoodText real
  | LowFoodText real
  | LavaAwayText real
  | MobAwayText string real
  | DangerousDropText nat

record DangerObservation =
  d_type :: DangerType
  severity :: Severity
  description :: Description
  d_position :: "Vec3 option"

text \<open>
  What the observer reads from the game client: health and food (possibly undefined),
  the position of the bot's entity (absent before spawning), \<^verbatim>\<open>blockAt\<close>, the block
  catalogue \<^verbatim>\<open>blocksByName\<close> and \<^verbatim>\<open>findBlocks(matching, maxDistance, count)\<close>. For the last
  two \<open>None\<close> stands for a call that throws.
\<close>

record Bot =
  health :: "real option"
  food :: "real option"
  entity :: "Vec3 option"
  blockAt :: "Vec3 \<Rightarrow> Block option"
  blocksByName :: "(string \<rightharpoonup> nat) option"
  findBlocks :: "nat \<Rightarrow> real \<Rightarrow> nat \<Rightarrow> Vec3 list option"

definition ORE_BLOCKS :: "string list" where
  "ORE_BLOCKS =
     [''coal_ore'', ''iron_ore'', ''gold_ore'', ''diamond_ore'', ''emerald_ore'',
      ''lapis_ore'', ''redstone_ore'', ''copper_ore'',
      ''deepslate_coal_ore'', ''deepslate_iron_ore'', ''deepslate_gold_ore'',
      ''deepslate_diamond_ore'', ''deepslate_emerald_ore'', ''deepslate_lapis_ore'',
      ''deepslate_redstone_ore'', ''deepslate_copper_ore'',
      ''nether_gold_ore'', ''nether_quartz_ore'', ''ancient_debris'']"

definition WOOD_BLOCKS :: "string list" where
  "WOOD_BLOCKS =
     [''oak_log'', ''birch_log'', ''spruce_log'', ''jungle_log'',
      ''acacia_log'', ''dark_oak_log'', ''mangrove_log'', ''cherry_log'']"

text \<open>\<^verbatim>\<open>String.prototype.includes\<close>: the pattern occurs at some position.\<close>

definition js_includes :: "string \<Rightarrow> string \<Rightarrow> bool" where
  "js_includes s pat = list_ex (\<lambda>i. take (length pat) (drop i s) = pat) [0..<Suc (length s)]"

definition categorizeBlock :: "string \<Rightarrow> BlockCategory" where
  "categorizeBlock blockName =
     (if blockName \<in> set ORE_BLOCKS then Ore
      else if blockName \<in> set WOOD_BLOCKS then Wood
      else if js_includes blockName ''stone'' then Stone
      else if js_includes blockName ''dirt'' \<or> js_includes blockName ''grass'' then Dirt
      else Other)"

text \<open>
  \<^verbatim>\<open>findNearbyBlockType(blockName, maxDistance)\<close>: up to 50 positions from the game
  client, each with its distance rounded to one decimal, sorted by distance; the empty
  list when the bot has no entity, the block is unknown, or a call throws.
\<close>

definition findNearbyBlockType :: "Bot \<Rightarrow> string \<Rightarrow> real \<Rightarrow> BlockObservation list" where
  "findNearbyBlockType bt blockName maxDistance =
     (case entity bt of
        None \<Rightarrow> []
      | Some botPos \<Rightarrow>
          (case blocksByName bt of
             None \<Rightarrow> []
           | Some catalogue \<Rightarrow>
               (case catalogue blockName of
                  None \<Rightarrow> []
                | Some blockTypeId \<Rightarrow>
                    (case findBlocks bt blockTypeId maxDistance 50 of
                       None \<Rightarrow> []
                     | Some positions \<Rightarrow>
                         sort_key bo_distance
                           (map (\<lambda>pos.
                                  \<lparr> bo_name = (case blockAt bt pos of
                                                 None \<Rightarrow> blockName
                                               | Some blk \<Rightarrow> if block_name blk = [] then blockName
                                                             else block_name blk),
                                    bo_position = pos,
                                    bo_distance = real_of_int (js_round (distanceTo botPos pos * 10)) / 10,
                                    bo_type = categorizeBlock blockName \<rparr>)
                              positions)))))"

text \<open>
  The downward scan of one column: \<^verbatim>\<open>for (let y = 0; y > -10; y--)\<close> looks at the cells
  \<open>0, 1, \<dots>, 9\<close> below \<open>checkPos\<close> and stops at the first whose block has the bounding box
  \<^verbatim>\<open>block\<close>; \<^verbatim>\<open>dropDistance\<close> is that depth, and stays \<open>0\<close> when the loop finds none.
\<close>

definition solid_at :: "Bot \<Rightarrow> Vec3 \<Rightarrow> bool" where
  "solid_at bt pos = (case blockAt bt pos of None \<Rightarrow> False | Some blk \<Rightarrow> boundingBox blk = ''block'')"

definition scan_down :: "Bot \<Rightarrow> Vec3 \<Rightarrow> nat" where
  "scan_down bt checkPos =
     (case find (\<lambda>k. solid_at bt (offset checkPos 0 (- real k) 0)) [0..<10] of
        None \<Rightarrow> 0
      | Some k \<Rightarrow> k)"

text \<open>None of the ten cells the scan looks at in the column of \<open>checkPos\<close> is solid.\<close>

definition column_open :: "Bot \<Rightarrow> Vec3 \<Rightarrow> bool" where
  "column_open bt checkPos = list_all (\<lambda>k. \<not> solid_at bt (offset checkPos 0 (- real k) 0)) [0..<10]"

text \<open>
  The neighbour columns in loop order: \<open>x\<close> from \<open>-checkRadius\<close> to \<open>checkRadius\<close>, inside
  it \<open>z\<close> likewise, the bot's own column skipped.
\<close>

definition ring_offsets :: "int \<Rightarrow> (int \<times> int) list" where
  "ring_offsets checkRadius =
     filter (\<lambda>(x, z). \<not> (x = 0 \<and> z = 0))
       (concat (map (\<lambda>x. map (\<lambda>z. (x, z)) [- checkRadius..checkRadius]) [- checkRadius..checkRadius]))"

definition column_pos :: "Vec3 \<Rightarrow> int \<times> int \<Rightarrow> Vec3" where
  "column_pos botPos xz = offset botPos (real_of_int (fst xz)) 0 (real_of_int (snd xz))"

text \<open>
  \<^verbatim>\<open>detectCliff\<close>: the first column in loop order whose \<^verbatim>\<open>dropDistance\<close> exceeds 4 is
  returned as a cliff danger.
\<close>

definition detectCliff :: "Bot \<Rightarrow> DangerObservation option" where
  "detectCliff bt =
     (case entity bt of
        None \<Rightarrow> None
      | Some botPos \<Rightarrow>
          (let checkRadius = 3
           in case find (\<lambda>xz. scan_down bt (column_pos botPos xz) > 4) (ring_offsets checkRadius) of
                None \<Rightarrow> None
              | Some xz \<Rightarrow>
                  (let checkPos = column_pos botPos xz;
                       dropDistance = scan_down bt checkPos
                   in Some \<lparr> d_type = Cliff,
                             severity = (if dropDistance > 10 then High else Medium),
                             description = DangerousDropText dropDistance,
                             d_position = Some checkPos \<rparr>)))"

text \<open>
  \<^verbatim>\<open>this.bot.health ?? 20\<close> and \<^verbatim>\<open>this.bot.food ?? 20\<close>: the values the observer reads, in
  \<^verbatim>\<open>detectDangers\<close> as in \<^verbatim>\<open>observe\<close>.
\<close>

definition recorded_health :: "Bot \<Rightarrow> real" where
  "recorded_health bt = (case health bt of None \<Rightarrow> 20 | Some v \<Rightarrow> v)"

definition recorded_food :: "Bot \<Rightarrow> real" where
  "recorded_food bt = (case food bt of None \<Rightarrow> 20 | Some v \<Rightarrow> v)"

text \<open>
  \<^verbatim>\<open>detectDangers\<close>; \<open>lastEntities\<close> is \<^verbatim>\<open>lastSnapshot?.nearbyEntities\<close>, absent before the
  first observation.
\<close>

definition detectDangers :: "Bot \<Rightarrow> EntityObservation list option \<Rightarrow> DangerObservation list" where
  "detectDangers bt lastEntities =
     (let h = recorded_health bt;
          healthDangers =
            (if h \<le> 5 then
               [\<lparr> d_type = LowHealth, severity = Critical, description = CriticalHealthText h,
                  d_position = None \<rparr>]
             else if h \<le> 10 then
               [\<lparr> d_type = LowHealth, severity = High, description = LowHealthText h,
                  d_position = None \<rparr>]
             else []);
          f = recorded_food bt;
          foodDangers =
            (if f \<le> 5 then
               [\<lparr> d_type = LowFood, severity = High, description = CriticalFoodText f,
                  d_position = None \<rparr>]
             else if f \<le> 10 then
               [\<lparr> d_type = LowFood, severity = Medium, description = LowFoodText f,
                  d_position = None \<rparr>]
             else [])
      in if entity bt = None then healthDangers @ foodDangers
         else
           (let lavaDangers =
                  (case findNearbyBlockType bt ''lava'' 8 of
                     [] \<Rightarrow> []
                   | nearest # _ \<Rightarrow>
                       [\<lparr> d_type = Lava,
                          severity = (if bo_distance nearest < 3 then Critical else Medium),
                          description = LavaAwayText (bo_distance nearest),
                          d_position = Some (bo_position nearest) \<rparr>]);
                hostileMobs = (case lastEntities of None \<Rightarrow> [] | Some es \<Rightarrow> filter isHostile es);
                mobDangers =
                  (case hostileMobs of
                     [] \<Rightarrow> []
                   | nearest # _ \<Rightarrow>
                       [\<lparr> d_type = HostileMob,
                          severity = (if eo_distance nearest < 5 then Critical
                                      else if eo_distance nearest < 10 then High else Medium),
                          description = MobAwayText (eo_name nearest) (eo_distance nearest),
                          d_position = Some (eo_position nearest) \<rparr>]);
                cliffDangers = (case detectCliff bt of None \<Rightarrow> [] | Some d \<Rightarrow> [d])
            in healthDangers @ foodDangers @ lavaDangers @ mobDangers @ cliffDangers))"

text \<open>
  Example clients. \<open>hurt_bot\<close> has health 4 and food 4 and has not spawned; \<open>sore_bot\<close> is
  the same with health 8. \<open>ledge_bot\<close> stands at the origin in a world whose cells are
  solid from five below the bot's level downwards; \<open>void_bot\<close> stands in a world without
  blocks.
\<close>

definition hurt_bot :: Bot where
  "hurt_bot = \<lparr> health = Some 4, food = Some 4, entity = None, blockAt = (\<lambda>p. None),
                blocksByName = None, findBlocks = (\<lambda>i d c. None) \<rparr>"

definition sore_bot :: Bot where
  "sore_bot = hurt_bot\<lparr>health := Some 8\<rparr>"

definition ledge_bot :: Bot where
  "ledge_bot =
     \<lparr> health = Some 20, food = Some 20, entity = Some \<lparr>vx = 0, vy = 0, vz = 0\<rparr>,
       blockAt = (\<lambda>p. if vy p \<le> - 5 then Some \<lparr>block_name = ''stone'', boundingBox = ''block''\<rparr>
                       else None),
       blocksByName = None, findBlocks = (\<lambda>i d c. None) \<rparr>"

definition void_bot :: Bot where
  "void_bot = ledge_bot\<lparr>blockAt := (\<lambda>p. None)\<rparr>"

text \<open>The cliff danger \<open>ledge_bot\<close> is in, and the first neighbour column of the scan.\<close>

definition first_column :: Vec3 where
  "first_column = \<lparr>vx = - 3, vy = 0, vz = - 3\<rparr>"

definition ledge_danger :: DangerObservation where
  "ledge_danger = \<lparr> d_type = Cliff, severity = Medium, description = DangerousDropText 5,
                     d_position = Some first_column \<rparr>"

text \<open>The dangers of \<open>hurt_bot\<close> and the health danger of \<open>sore_bot\<close>.\<close>

definition hurt_health_danger :: DangerObservation where
  "hurt_health_danger = \<lparr> d_type = LowHealth, severity = Critical,
                           description = CriticalHealthText 4, d_position = None \<rparr>"

definition hurt_food_danger :: DangerObservation where
  "hurt_food_danger = \<lparr> d_type = LowFood, severity = High,
                         description = CriticalFoodText 4, d_position = None \<rparr>"

definition sore_health_danger :: DangerObservation where
  "sore_health_danger = \<lparr> d_type = LowHealth, severity = High,
                           description = LowHealthText 8, d_position = None \<rparr>"

section \<open>Perception layer: the inventory tracker\<close>

text \<open>An item stack as the tracker reads it: its name and its count.\<close>

record Item =
  item_name :: string
  item_count :: int

datatype ChangeKind = Added | Removed | Changed

record InventoryChange =
  ch_timestamp :: nat
  ch_type :: ChangeKind
  ch_item :: string
  countBefore :: int
  countAfter :: int
  delta :: int

record InventoryTracker =
  previousInventory :: "(string \<times> int) list"
  changeHistory :: "InventoryChange list"
  it_maxHistorySize :: nat

text \<open>
  \<^verbatim>\<open>getInventoryMap\<close>: the aggregate count per item name, a \<^verbatim>\<open>Map\<close> in insertion order;
  \<open>None\<close> is a bot without inventory. \<^verbatim>\<open>map.get(name) || 0\<close> reads a missing key as \<open>0\<close>.
\<close>

definition count_of :: "(string \<times> int) list \<Rightarrow> string \<Rightarrow> int" where
  "count_of m k = (case map_of m k of None \<Rightarrow> 0 | Some c \<Rightarrow> c)"

definition getInventoryMap :: "Item list option \<Rightarrow> (string \<times> int) list" where
  "getInventoryMap inventory =
     (case inventory of
        None \<Rightarrow> []
      | Some items \<Rightarrow>
          fold (\<lambda>item m. map_set (item_name item) (count_of m (item_name item) + item_count item) m)
            items [])"

definition new_InventoryTracker :: "Item list option \<Rightarrow> InventoryTracker" where
  "new_InventoryTracker inventory =
     \<lparr> previousInventory = getInventoryMap inventory, changeHistory = [], it_maxHistorySize = 100 \<rparr>"

definition updateInventorySnapshot :: "Item list option \<Rightarrow> InventoryTracker \<Rightarrow> InventoryTracker" where
  "updateInventorySnapshot inventory tr = tr\<lparr>previousInventory := getInventoryMap inventory\<rparr>"

text \<open>
  The changes one run of \<^verbatim>\<open>onInventoryChange\<close> collects: first the entries of the current
  map whose count differs from the previous one, then the entries of the previous map
  that the current map lacks.
\<close>

definition detect_changes ::
  "nat \<Rightarrow> (string \<times> int) list \<Rightarrow> (string \<times> int) list \<Rightarrow> InventoryChange list" where
  "detect_changes now previous current =
     concat (map (\<lambda>(itemName, currentCount).
                    let previousCount = count_of previous itemName
                    in if currentCount \<noteq> previousCount then
                         (let d = currentCount - previousCount
                          in [\<lparr> ch_timestamp = now,
                                 ch_type = (if d > 0 then Added else if d < 0 then Removed else Changed),
                                 ch_item = itemName, countBefore = previousCount,
                                 countAfter = currentCount, delta = d \<rparr>])
                       else [])
               current)
     @ concat (map (\<lambda>(itemName, previousCount).
                      if map_of current itemName = None then
                        [\<lparr> ch_timestamp = now, ch_type = Removed, ch_item = itemName,
                           countBefore = previousCount, countAfter = 0, delta = - previousCount \<rparr>]
                      else [])
                 previous)"

definition onInventoryChange :: "nat \<Rightarrow> Item list option \<Rightarrow> InventoryTracker \<Rightarrow> InventoryTracker" where
  "onInventoryChange now inventory tr =
     (let currentInventory = getInventoryMap inventory;
          changes = detect_changes now (previousInventory tr) currentInventory;
          hist = (if length changes > 0 then
                    (let h = changeHistory tr @ changes
                     in if length h > it_maxHistorySize tr
                        then js_slice (- int (it_maxHistorySize tr)) h else h)
                  else changeHistory tr)
      in tr\<lparr>changeHistory := hist, previousInventory := currentInventory\<rparr>)"

text \<open>
  What happens to a tracker: an inventory event (an item collected by the bot, or an
  item dropped) runs the handler on the inventory of that moment; the decision cycle
  refreshes the snapshot.
\<close>

datatype tracker_event = InventoryEvent nat "Item list option" | SnapshotUpdate "Item list option"

fun apply_tracker_event :: "tracker_event \<Rightarrow> InventoryTracker \<Rightarrow> InventoryTracker" where
  "apply_tracker_event (InventoryEvent now inventory) tr = onInventoryChange now inventory tr"
| "apply_tracker_event (SnapshotUpdate inventory) tr = updateInventorySnapshot inventory tr"

definition event_inventory :: "tracker_event \<Rightarrow> Item list option" where
  "event_inventory ev = (case ev of InventoryEvent now inventory \<Rightarrow> inventory | SnapshotUpdate inventory \<Rightarrow> inventory)"

text \<open>Every stack of an inventory holds at least one item.\<close>

definition stacks_positive :: "Item list option \<Rightarrow> bool" where
  "stacks_positive inventory = (case inventory of None \<Rightarrow> True | Some items \<Rightarrow> list_all (\<lambda>i. 0 < item_count i) items)"

text \<open>
  A well-classified change: not of kind \<^verbatim>\<open>changed\<close>, with a non-zero delta whose sign
  decides between \<^verbatim>\<open>added\<close> and \<^verbatim>\<open>removed\<close>, and with \<open>countAfter = countBefore + delta\<close>;
  and the part of this that does not depend on the stack counts.
\<close>

definition good_change :: "InventoryChange \<Rightarrow> bool" where
  "good_change c =
     (ch_type c \<noteq> Changed \<and> delta c \<noteq> 0
      \<and> (ch_type c = Added) = (delta c > 0) \<and> (ch_type c = Removed) = (delta c < 0)
      \<and> countAfter c = countBefore c + delta c)"

definition never_changed :: "InventoryChange \<Rightarrow> bool" where
  "never_changed c = (ch_type c \<noteq> Changed \<and> countAfter c = countBefore c + delta c)"

text \<open>
  The record of an item that has disappeared although its aggregate count before was not
  positive: kind \<^verbatim>\<open>removed\<close>, \<open>countAfter = 0\<close> and \<open>delta = - countBefore\<close>, which is
  not negative.
\<close>

definition ghost_removal :: "InventoryChange \<Rightarrow> bool" where
  "ghost_removal c =
     (ch_type c = Removed \<and> countAfter c = 0 \<and> countBefore c \<le> 0 \<and> delta c = - countBefore c)"

text \<open>What holds of every recorded change: it is well classified or a ghost removal.\<close>

definition recorded_shape :: "InventoryChange \<Rightarrow> bool" where
  "recorded_shape c = (never_changed c \<and> (good_change c \<or> ghost_removal c))"

text \<open>All counts of an aggregate map are positive.\<close>

definition counts_positive :: "(string \<times> int) list \<Rightarrow> bool" where
  "counts_positive m = list_all (\<lambda>kc. 0 < snd kc) m"

text \<open>
  An example run: the bot starts with three oak logs, collects two more and two stones,
  then drops the logs.
\<close>

definition run_start :: "Item list option" where
  "run_start = Some [\<lparr>item_name = ''oak_log'', item_count = 3\<rparr>]"

definition run_events :: "tracker_event list" where
  "run_events =
     [InventoryEvent 1 (Some [\<lparr>item_name = ''oak_log'', item_count = 5\<rparr>,
                              \<lparr>item_name = ''stone'', item_count = 2\<rparr>]),
      InventoryEvent 2 (Some [\<lparr>item_name = ''stone'', item_count = 2\<rparr>])]"

text \<open>
  A run with an empty stack: the bot starts with a stack of sticks whose count is 0, and
  the stack is gone at the next inventory event.
\<close>

definition ghost_start :: "Item list option" where
  "ghost_start = Some [\<lparr>item_name = ''stick'', item_count = 0\<rparr>]"

definition ghost_events :: "tracker_event list" where
  "ghost_events = [InventoryEvent 1 (Some [])]"

section \<open>Properties of the list helpers\<close>

lemma length_js_slice: "length (js_slice start xs) \<le> length xs"
  by (simp add: js_slice_def Let_def)

lemma js_slice_neg_length: "0 < n \<Longrightarrow> length (js_slice (- int n) xs) \<le> n"
  by (auto simp: js_slice_def Let_def)

lemma js_slice_neg_last: "0 < n \<Longrightarrow> xs \<noteq> [] \<Longrightarrow> last (js_slice (- int n) xs) = last xs"
  by (auto simp: js_slice_def Let_def max_def)

lemma js_slice_neg_nonempty: "0 < n \<Longrightarrow> xs \<noteq> [] \<Longrightarrow> js_slice (- int n) xs \<noteq> []"
  by (auto simp: js_slice_def Let_def max_def)

lemma js_slice_neg: "0 < n \<Longrightarrow> js_slice (- int n) xs = last_n n xs"
  by (auto simp: js_slice_def last_n_def Let_def max_def nat_diff_distrib'
      intro: arg_cong2[of _ _ _ _ drop])

lemma length_last_n: "length (last_n n xs) = min n (length xs)"
  by (simp add: last_n_def)

lemma last_n_all: "length xs \<le> n \<Longrightarrow> last_n n xs = xs"
  by (simp add: last_n_def)

lemma last_n_append: "last_n n (last_n n xs @ ys) = last_n n (xs @ ys)"
proof (cases "n \<le> length xs")
  case True
  then show ?thesis by (simp add: last_n_def add.commute)
next
  case False
  then show ?thesis by (simp add: last_n_def)
qed

lemma last_last_n: "0 < n \<Longrightarrow> xs \<noteq> [] \<Longrightarrow> last (last_n n xs) = last xs"
  by (simp add: last_n_def)

lemma rev_last_n: "rev (last_n n xs) = take n (rev xs)"
  by (cases "n \<le> length xs") (simp_all add: last_n_def rev_drop)

section \<open>Properties of the state machine\<close>

lemma chain_values:
  "chain_planning = (True, \<lparr> currentState = PLANNING, previousState = Some IDLE,
      history = [\<lparr>t_from = IDLE, t_to = PLANNING, t_timestamp = 1, t_reason = Some ''plan''\<rparr>],
      maxHistorySize = 100,
      config = \<lparr>allowedTransitions = DEFAULT_TRANSITIONS, onEnter = None, onExit = None\<rparr> \<rparr>)"
  "chain_mining = (True, \<lparr> currentState = MINING, previousState = Some PLANNING,
      history = [\<lparr>t_from = IDLE, t_to = PLANNING, t_timestamp = 1, t_reason = Some ''plan''\<rparr>,
                 \<lparr>t_from = PLANNING, t_to = MINING, t_timestamp = 2, t_reason = None\<rparr>],
      maxHistorySize = 100,
      config = \<lparr>allowedTransitions = DEFAULT_TRANSITIONS, onEnter = None, onExit = None\<rparr> \<rparr>)"
  by (simp_all add: chain_planning_def chain_mining_def new_StateMachine_def transition_def
      canTransition_def run_callback_def DEFAULT_TRANSITIONS_def Let_def)

lemma chain_values_late:
  "chain_eating = (True, \<lparr> currentState = EATING, previousState = Some MINING,
      history = [\<lparr>t_from = IDLE, t_to = PLANNING, t_timestamp = 1, t_reason = Some ''plan''\<rparr>,
                 \<lparr>t_from = PLANNING, t_to = MINING, t_timestamp = 2, t_reason = None\<rparr>,
                 \<lparr>t_from = MINING, t_to = EATING, t_timestamp = 3, t_reason = None\<rparr>],
      maxHistorySize = 100,
      config = \<lparr>allowedTransitions = DEFAULT_TRANSITIONS, onEnter = None, onExit = None\<rparr> \<rparr>)"
  "length (getHistory (snd chain_idle)) = 4"
  "fst chain_idle"
  "getCurrentState (snd chain_idle) = IDLE"
  by (simp_all add: chain_eating_def chain_idle_def chain_values transition_def returnToIdle_def
      canTransition_def run_callback_def DEFAULT_TRANSITIONS_def getHistory_def
      getCurrentState_def Let_def)

text \<open>
  C2, as the code has it. A machine started in \<open>IDLE\<close> with the default table and no
  callbacks accepts \<^verbatim>\<open>transition(planning, "plan")\<close> and is then in \<open>PLANNING\<close>; it accepts
  \<^verbatim>\<open>transition(mining)\<close> and is then in \<open>MINING\<close>; it also accepts \<^verbatim>\<open>transition(eating)\<close>,
  since the table lists \<open>EATING\<close> among the destinations of \<open>MINING\<close>, and is then in
  \<open>EATING\<close>; \<^verbatim>\<open>returnToIdle()\<close> is accepted and leads to \<open>IDLE\<close>; the history then has
  length 4. The clock readings are arbitrary.
\<close>

theorem legal_transition_chain:
  "let sm0 = new_StateMachine None None None;
       (r1, sm1) = transition t1 PLANNING (Some ''plan'') sm0;
       (r2, sm2) = transition t2 MINING None sm1;
       (r3, sm3) = transition t3 EATING None sm2;
       (r4, sm4) = returnToIdle t4 None sm3
   in getCurrentState sm0 = IDLE
    \<and> r1 \<and> getCurrentState sm1 = PLANNING
    \<and> r2 \<and> getCurrentState sm2 = MINING
    \<and> r3 \<and> getCurrentState sm3 = EATING
    \<and> r4 \<and> getCurrentState sm4 = IDLE
    \<and> length (getHistory sm4) = 4"
  by (simp add: new_StateMachine_def transition_def returnToIdle_def canTransition_def
      run_callback_def getCurrentState_def getHistory_def DEFAULT_TRANSITIONS_def Let_def)

text \<open>
  C2 as stated fails on the seed scenario: it is not the case that the third call is
  rejected with the machine still in \<open>MINING\<close> and that the final history has length 3.
\<close>

theorem legal_transition_chain_counterexample:
  "\<not> (fst chain_planning \<and> getCurrentState (snd chain_planning) = PLANNING
      \<and> fst chain_mining \<and> getCurrentState (snd chain_mining) = MINING
      \<and> \<not> fst chain_eating \<and> getCurrentState (snd chain_eating) = MINING
      \<and> fst chain_idle \<and> getCurrentState (snd chain_idle) = IDLE
      \<and> length (getHistory (snd chain_idle)) = 3)"
  by (simp add: chain_values_late)

lemma transition_history_bounded:
  "history_bounded sm \<Longrightarrow> history_bounded (snd (transition now to reason sm))"
  using js_slice_neg_length[of 100 "history sm @ [\<lparr>t_from = currentState sm, t_to = to,
      t_timestamp = now, t_reason = reason\<rparr>]"]
  by (auto simp: history_bounded_def transition_def Let_def split: callback_result.splits)

lemma apply_sm_op_history_bounded:
  "history_bounded sm \<Longrightarrow> history_bounded (apply_sm_op opn sm)"
proof (cases opn)
  case (Transition now to reason)
  then show ?thesis if "history_bounded sm" using that by (simp add: transition_history_bounded)
next
  case (TransitionToError now reason)
  then show ?thesis if "history_bounded sm"
    using that by (simp add: transitionToError_def transition_history_bounded)
next
  case (ReturnToIdle now reason)
  then show ?thesis if "history_bounded sm"
    using that by (simp add: returnToIdle_def transition_history_bounded)
next
  case Reset
  then show ?thesis if "history_bounded sm"
    using that by (simp add: reset_def history_bounded_def)
next
  case ClearHistory
  then show ?thesis if "history_bounded sm"
    using that by (simp add: clearHistory_def history_bounded_def)
qed

text \<open>
  The bound on the history holds in every reachable state, whatever the callbacks do.
\<close>

lemma run_history_bounded:
  "length (history (fold apply_sm_op ops (new_StateMachine tbl enter exit))) \<le> 100"
proof -
  have "history_bounded sm \<Longrightarrow> history_bounded (fold apply_sm_op ops sm)" for sm
    by (induction ops arbitrary: sm) (simp_all add: apply_sm_op_history_bounded)
  moreover have "history_bounded (new_StateMachine tbl enter exit)"
    by (simp add: history_bounded_def new_StateMachine_def)
  ultimately show ?thesis
    by (simp add: history_bounded_def)
qed

text \<open>
  A call of \<^verbatim>\<open>transition\<close> whose \<^verbatim>\<open>onEnter\<close> callback returns keeps the last recorded
  destination equal to the current state.
\<close>

lemma transition_last_to_current:
  assumes "last_to_current sm" "history_bounded sm" "run_callback (onEnter (config sm)) to = Returns"
  shows "last_to_current (snd (transition now to reason sm))"
proof -
  let ?h = "history sm @ [\<lparr>t_from = currentState sm, t_to = to, t_timestamp = now, t_reason = reason\<rparr>]"
  have "last (js_slice (- 100) ?h) = last ?h" and "js_slice (- 100) ?h \<noteq> []"
    using js_slice_neg_last[of 100 ?h] js_slice_neg_nonempty[of 100 ?h] by simp_all
  then show ?thesis
    using assms
    by (auto simp: last_to_current_def history_bounded_def transition_def Let_def
        split: callback_result.splits)
qed

text \<open>
  C3, on the code. With an \<^verbatim>\<open>onEnter\<close> callback that throws, \<^verbatim>\<open>transition(planning)\<close> on a
  new machine returns false and leaves the machine in \<open>IDLE\<close>, but the transition from
  \<open>IDLE\<close> to \<open>PLANNING\<close> stays in the history: the \<^verbatim>\<open>catch\<close> handler restores
  \<^verbatim>\<open>currentState\<close> only. The most recent recorded destination then differs from the
  current state.
\<close>

theorem failed_enter_leaves_history_entry:
  "fst (transition now PLANNING reason throwing_enter_machine) = False
   \<and> getCurrentState (snd (transition now PLANNING reason throwing_enter_machine)) = IDLE
   \<and> getHistory (snd (transition now PLANNING reason throwing_enter_machine))
       = [\<lparr>t_from = IDLE, t_to = PLANNING, t_timestamp = now, t_reason = reason\<rparr>]
   \<and> t_to (last (getHistory (snd (transition now PLANNING reason throwing_enter_machine))))
       \<noteq> getCurrentState (snd (transition now PLANNING reason throwing_enter_machine))"
  by (simp add: throwing_enter_machine_def new_StateMachine_def transition_def canTransition_def
      run_callback_def getCurrentState_def getHistory_def DEFAULT_TRANSITIONS_def Let_def)

section \<open>Properties of the persistence round trip\<close>

lemma insertMessage_sorted:
  "db_sorted db \<Longrightarrow> db_sorted (snd (insertMessage m db))"
  by (auto simp: db_sorted_def insertMessage_def Let_def sorted_append list_all_iff)

lemma insertMessage_rows:
  "map snd (message_rows (snd (insertMessage m db))) = map snd (message_rows db) @ [m]"
  by (simp add: insertMessage_def Let_def)

lemma fold_insert_sorted:
  "db_sorted db \<Longrightarrow> db_sorted (fold (\<lambda>message db. snd (insertMessage message db)) ms db)"
  by (induction ms arbitrary: db) (simp_all add: insertMessage_sorted)

lemma fold_insert_rows:
  "map snd (message_rows (fold (\<lambda>message db. snd (insertMessage message db)) ms db))
     = map snd (message_rows db) @ ms"
  by (induction ms arbitrary: db) (simp_all add: insertMessage_rows)

lemma getRecentMessages_sorted:
  "db_sorted db \<Longrightarrow> getRecentMessages n db = take n (rev (map snd (message_rows db)))"
  by (simp add: getRecentMessages_def db_sorted_def sort_key_id_if_sorted take_map rev_map)

lemma stored_db_sorted: "db_sorted (stored_db old)"
  unfolding stored_db_def
  by (rule fold_insert_sorted) (simp add: db_sorted_def new_DatabaseManager_def)

lemma stored_db_rows: "map snd (message_rows (stored_db old)) = old"
  unfolding stored_db_def by (simp add: fold_insert_rows new_DatabaseManager_def)

lemma load_after_save:
  assumes "db_sorted (mm_db mm)"
  shows "getMessages (loadFromDatabase n (clear (saveToDatabase mm)))
           = take n (rev (map snd (message_rows (mm_db mm)) @ messages mm))"
proof -
  let ?db = "fold (\<lambda>message db. snd (insertMessage message db)) (messages mm) (mm_db mm)"
  have "db_sorted ?db"
    using assms by (rule fold_insert_sorted)
  then have "getRecentMessages n ?db = take n (rev (map snd (message_rows ?db)))"
    by (rule getRecentMessages_sorted)
  also have "map snd (message_rows ?db) = map snd (message_rows (mm_db mm)) @ messages mm"
    by (simp add: fold_insert_rows)
  finally show ?thesis
    by (simp add: getMessages_def loadFromDatabase_def clear_def saveToDatabase_def)
qed

text \<open>
  C1, as the code has it. Let the message table hold the rows \<open>old\<close>, inserted earlier in
  that order, and the manager the messages \<open>m\<^sub>1, \<dots>, m\<^sub>k\<close>. After \<^verbatim>\<open>saveToDatabase()\<close>,
  \<^verbatim>\<open>clear()\<close> and \<^verbatim>\<open>loadFromDatabase(n)\<close> the manager's list is the last \<open>n\<close> rows of the
  table (all of them when there are fewer), newest first: the port answers newest-first
  and the manager keeps that order. With a table that was empty before the save these are
  the last \<open>min n k\<close> saved messages in reverse chronological order.
\<close>

theorem save_clear_load_newest_first:
  "getMessages (loadFromDatabase n (clear (saveToDatabase (mm\<lparr>mm_db := stored_db old\<rparr>))))
     = rev (last_n n (old @ getMessages mm))"
  using load_after_save[of "mm\<lparr>mm_db := stored_db old\<rparr>" n]
  by (simp add: stored_db_sorted stored_db_rows rev_last_n getMessages_def)

lemma roundtrip_example_values:
  "getMessages roundtrip_example
     = [\<lparr>role = User, content = ''first''\<rparr>, \<lparr>role = Assistant, content = ''second''\<rparr>]"
  "mm_db roundtrip_example = new_DatabaseManager"
  by (simp_all add: roundtrip_example_def addMessage_def autoTrim_def getTotalTokens_def
      new_MemoryManager_def zero_usage_def getMessages_def)

text \<open>
  C1 as stated fails: for the two messages of \<open>roundtrip_example\<close> on a new database and
  \<open>n = 2\<close>, the list after the round trip is not the last \<open>min n k\<close> messages in
  chronological order.
\<close>

theorem save_clear_load_counterexample:
  "getMessages (loadFromDatabase 2 (clear (saveToDatabase roundtrip_example)))
     \<noteq> last_n (min 2 (length (getMessages roundtrip_example))) (getMessages roundtrip_example)"
proof -
  have "db_sorted (mm_db roundtrip_example)"
    by (simp add: roundtrip_example_values db_sorted_def new_DatabaseManager_def)
  then have "getMessages (loadFromDatabase 2 (clear (saveToDatabase roundtrip_example)))
     = take 2 (rev (map snd (message_rows (mm_db roundtrip_example)) @ messages roundtrip_example))"
    by (rule load_after_save)
  then show ?thesis
    using roundtrip_example_values
    by (simp add: last_n_def getMessages_def new_DatabaseManager_def)
qed

section \<open>Properties of the token-budget trim\<close>

lemma addMessage_over_budget:
  assumes "getTotalTokens mm > maxTokens (mm_config mm)" "keepMessages (mm_config mm) = int k" "0 < k"
  shows "addMessage msg mm = mm\<lparr>messages := last_n k (messages mm @ [msg])\<rparr>"
  using assms
  by (auto simp: addMessage_def autoTrim_def trimToCount_def getTotalTokens_def Let_def
      js_slice_neg last_n_all)

lemma addMessage_keeps:
  "tokenUsage (addMessage msg mm) = tokenUsage mm"
  "mm_config (addMessage msg mm) = mm_config mm"
  "mm_db (addMessage msg mm) = mm_db mm"
  by (simp_all add: addMessage_def autoTrim_def trimToCount_def Let_def)

lemma fold_addMessage_over_budget:
  assumes "getTotalTokens mm > maxTokens (mm_config mm)" "keepMessages (mm_config mm) = int k" "0 < k"
    "xs \<noteq> []"
  shows "messages (fold addMessage xs mm) = last_n k (messages mm @ xs)"
  using assms
proof (induction xs arbitrary: mm)
  case Nil
  then show ?case by simp
next
  case (Cons x xs)
  let ?mm = "addMessage x mm"
  have step: "?mm = mm\<lparr>messages := last_n k (messages mm @ [x])\<rparr>"
    using Cons.prems by (simp add: addMessage_over_budget)
  show ?case
  proof (cases "xs = []")
    case True
    then show ?thesis using step by simp
  next
    case False
    have "messages (fold addMessage xs ?mm) = last_n k (messages ?mm @ xs)"
      using Cons.prems False
      by (intro Cons.IH) (simp_all add: addMessage_keeps getTotalTokens_def)
    then show ?thesis
      using step last_n_append[of k "messages mm @ [x]" xs] by simp
  qed
qed

lemma addMessage_length:
  "length (messages (addMessage msg mm)) \<le> Suc (length (messages mm))"
proof -
  have "length (js_slice s (messages mm @ [msg])) \<le> Suc (length (messages mm))" for s
    using length_js_slice[of s "messages mm @ [msg]"] by simp
  then show ?thesis
    by (simp add: addMessage_def autoTrim_def trimToCount_def Let_def)
qed

text \<open>
  C6. A manager with \<open>maxTokens = 100\<close> and \<open>keepMessages = 5\<close> whose usage has been set to
  200 prompt tokens holds, after fifty \<^verbatim>\<open>addMessage\<close> calls with the user contents
  \<open>m 1, \<dots>, m 50\<close>, exactly five messages, the last with content \<open>m 50\<close>. And for every
  manager whose recorded prompt usage exceeds \<open>maxTokens\<close>, the message count after
  \<^verbatim>\<open>addMessage\<close> is at most the larger of \<open>keepMessages\<close> and the count before plus one.
\<close>

theorem token_budget_trim:
  "(let mm0 = updateTokenUsage \<lparr>prompt_tokens = 200, completion_tokens = c, total_tokens = t\<rparr>
                (new_MemoryManager db \<lparr>maxTokens = 100, keepMessages = 5\<rparr>);
        mm50 = fold addMessage (map (\<lambda>i. \<lparr>role = User, content = m i\<rparr>) [1..<51]) mm0
    in length (getMessages mm50) = 5 \<and> content (last (getMessages mm50)) = m 50)
   \<and> (getTotalTokens mm > maxTokens (mm_config mm) \<longrightarrow>
        int (length (getMessages (addMessage msg mm)))
          \<le> max (keepMessages (mm_config mm)) (int (length (getMessages mm)) + 1))"
proof -
  let ?mm0 = "updateTokenUsage \<lparr>prompt_tokens = 200, completion_tokens = c, total_tokens = t\<rparr>
                (new_MemoryManager db \<lparr>maxTokens = 100, keepMessages = 5\<rparr>)"
  let ?xs = "map (\<lambda>i. \<lparr>role = User, content = m i\<rparr>) [1..<51]"
  have ms: "messages (fold addMessage ?xs ?mm0) = last_n 5 (messages ?mm0 @ ?xs)"
    by (rule fold_addMessage_over_budget)
      (simp_all add: updateTokenUsage_def new_MemoryManager_def getTotalTokens_def)
  have m0: "messages ?mm0 = []"
    by (simp add: updateTokenUsage_def new_MemoryManager_def)
  have len: "length (last_n 5 ?xs) = 5"
    by (simp add: length_last_n)
  have "[1..<51] = [1..<50] @ [50::nat]"
    using upt_Suc_append[of 1 50] by simp
  then have "?xs = map (\<lambda>i. \<lparr>role = User, content = m i\<rparr>) [1..<50] @ [\<lparr>role = User, content = m 50\<rparr>]"
    by simp
  then have "last ?xs = \<lparr>role = User, content = m 50\<rparr>" and "?xs \<noteq> []"
    by simp_all
  then have lst: "last (last_n 5 ?xs) = \<lparr>role = User, content = m 50\<rparr>"
    by (simp add: last_last_n)
  have gen: "int (length (messages (addMessage msg mm)))
      \<le> max (keepMessages (mm_config mm)) (int (length (messages mm)) + 1)"
    using addMessage_length[of msg mm] by linarith
  show ?thesis
    using ms m0 len lst gen by (simp add: getMessages_def Let_def)
qed

text \<open>
  The general bound of C6 at \<open>over_budget_example\<close>, a manager over budget that holds two
  messages: the hypothesis holds there, and so does the bound for a further
  \<^verbatim>\<open>addMessage\<close>.
\<close>

theorem token_budget_trim_witness:
  "getTotalTokens over_budget_example > maxTokens (mm_config over_budget_example)
   \<and> int (length (getMessages (addMessage \<lparr>role = User, content = ''third''\<rparr> over_budget_example)))
       \<le> max (keepMessages (mm_config over_budget_example))
            (int (length (getMessages over_budget_example)) + 1)"
proof -
  have h: "getTotalTokens over_budget_example > maxTokens (mm_config over_budget_example)"
    by (simp add: over_budget_example_def updateTokenUsage_def getTotalTokens_def)
  show ?thesis
    using h token_budget_trim[where mm = over_budget_example
        and msg = "\<lparr>role = User, content = ''third''\<rparr>"]
    by simp
qed

section \<open>Properties of the task decomposer\<close>

lemma set_map_set: "set (map_set k v m) \<subseteq> insert (k, v) (set m)"
  by (induction m) auto

lemma find_unique:
  assumes "x \<in> set xs" "P x" "\<forall>y \<in> set xs. P y \<longrightarrow> y = x"
  shows "find P xs = Some x"
  using assms
proof (induction xs)
  case Nil
  then show ?case by simp
next
  case (Cons a xs)
  show ?case
  proof (cases "P a")
    case True
    have "a \<in> set (a # xs)" by simp
    with True Cons.prems(3) have "a = x" by blast
    then show ?thesis using True by simp
  next
    case False
    with Cons.prems(1,2) have mem: "x \<in> set xs" by auto
    have rest: "\<forall>y \<in> set xs. P y \<longrightarrow> y = x"
      using Cons.prems(3) by (meson list.set_intros(2))
    have "find P xs = Some x"
      using mem Cons.prems(2) rest by (rule Cons.IH)
    then show ?thesis using False by simp
  qed
qed

lemma in_map_setD: "kt \<in> set (map_set k v m) \<Longrightarrow> kt = (k, v) \<or> kt \<in> set m"
  using set_map_set[of k v m] by auto

lemma map_set_completed_has_date:
  "completed_has_date tasks \<Longrightarrow> (status v = Completed \<longrightarrow> completedAt v \<noteq> None)
     \<Longrightarrow> completed_has_date (map_set k v tasks)"
  by (auto simp: completed_has_date_def list_all_iff dest!: in_map_setD)

lemma updateTaskStatus_completed_has_date:
  "completed_has_date tasks \<Longrightarrow> completed_has_date (updateTaskStatus now i st err tasks)"
  by (auto simp: updateTaskStatus_def Let_def intro!: map_set_completed_has_date
      split: option.splits)

lemma startTask_completed_has_date:
  "completed_has_date tasks \<Longrightarrow> completed_has_date (snd (startTask i tasks))"
  by (auto simp: startTask_def intro!: map_set_completed_has_date split: option.splits)

lemma apply_task_op_completed_has_date:
  "completed_has_date tasks \<Longrightarrow> completed_has_date (apply_task_op opn tasks)"
  by (cases opn)
    (simp_all add: updateTaskStatus_completed_has_date startTask_completed_has_date
      completeTask_def failTask_def)

lemma set_getPendingTasks:
  "set (getPendingTasks tasks) = {t \<in> snd ` set tasks. status t = Pending}"
  by (auto simp: getPendingTasks_def)

text \<open>
  From status to date the invariant holds: each of the four calls keeps every completed
  task dated.
\<close>

lemma run_completed_has_date:
  "completed_has_date tasks \<Longrightarrow> completed_has_date (fold apply_task_op ops tasks)"
  by (induction ops arbitrary: tasks) (simp_all add: apply_task_op_completed_has_date)

text \<open>
  C4, on the code. For every task \<open>t\<close> stored in an empty decomposer, \<^verbatim>\<open>completeTask\<close> at
  time \<open>n1\<close> followed by \<^verbatim>\<open>failTask\<close> leaves the task with status \<^verbatim>\<open>failed\<close> and with
  \<^verbatim>\<open>completedAt\<close> still set to \<open>n1\<close>: \<^verbatim>\<open>updateTaskStatus\<close> assigns the field when the new
  status is \<^verbatim>\<open>completed\<close> and never clears it.
\<close>

theorem complete_then_fail_keeps_completedAt:
  "let d0 = store_tasks [t] [];
       d1 = completeTask n1 (task_id t) d0;
       d2 = failTask n2 (task_id t) err d1
   in map_option status (getTask d0 (task_id t)) = Some (status t)
    \<and> map_option status (getTask d1 (task_id t)) = Some Completed
    \<and> map_option completedAt (getTask d1 (task_id t)) = Some (Some n1)
    \<and> map_option status (getTask d2 (task_id t)) = Some Failed
    \<and> map_option completedAt (getTask d2 (task_id t)) = Some (Some n1)"
  by (simp add: store_tasks_def completeTask_def failTask_def updateTaskStatus_def getTask_def Let_def)

text \<open>
  The percentage in double arithmetic, evaluated step by step: at the values the
  scenario needs, at a third, and at 23 of 40, where the product of the rounded quotient
  with 100 falls below 57.5.
\<close>

lemma bit_length_eq: "2 ^ k \<le> n \<Longrightarrow> n < 2 ^ Suc k \<Longrightarrow> bit_length n = Suc k"
proof (induction k arbitrary: n)
  case 0
  then have "n = 1" by simp
  then show ?case by (simp add: bit_length.simps)
next
  case (Suc k)
  have "2 ^ k \<le> n div 2" and "n div 2 < 2 ^ Suc k"
    using Suc.prems by simp_all
  then have "bit_length (n div 2) = Suc k" by (rule Suc.IH)
  moreover have "(0::nat) < 2 ^ Suc k" by simp
  then have "n \<noteq> 0" using Suc.prems(1) by linarith
  ultimately show ?case by (subst bit_length.simps) simp
qed

lemma bit_length_values:
  "bit_length (Suc 0) = 1" "bit_length 2 = 2" "bit_length 3 = 2" "bit_length 23 = 5" "bit_length 40 = 6"
  "bit_length 9007199254740992 = 54" "bit_length 4503599627370496 = 53"
  "bit_length 18014398509481984 = 55"
  "bit_length 600479950316066100 = 60" "bit_length 450359962737049600 = 59"
  "bit_length 517913957147607000 = 59"
  using bit_length_eq[of 0 1] bit_length_eq[of 1 2] bit_length_eq[of 1 3] bit_length_eq[of 4 23]
    bit_length_eq[of 5 40] bit_length_eq[of 53 9007199254740992]
    bit_length_eq[of 52 4503599627370496] bit_length_eq[of 54 18014398509481984]
    bit_length_eq[of 59 600479950316066100] bit_length_eq[of 58 450359962737049600]
    bit_length_eq[of 58 517913957147607000]
  by simp_all

lemma nearest_double_values:
  "nearest_double (Suc 0) 3 = (6004799503160661, 18014398509481984)"
  "nearest_double 2 3 = (6004799503160661, 9007199254740992)"
  "nearest_double 3 3 = (4503599627370496, 4503599627370496)"
  "nearest_double 23 40 = (5179139571476070, 9007199254740992)"
  "nearest_double 600479950316066100 18014398509481984 = (4691249611844266, 140737488355328)"
  "nearest_double 600479950316066100 9007199254740992 = (4691249611844266, 70368744177664)"
  "nearest_double 450359962737049600 4503599627370496 = (7036874417766400, 70368744177664)"
  "nearest_double 517913957147607000 9007199254740992 = (8092405580431359, 140737488355328)"
  by (simp_all add: nearest_double_def scale_ratio_def round_half_even_div_def
      bit_length_values Let_def)

lemma rounded_percent_values:
  "rounded_percent 1 3 = 33" "rounded_percent 2 3 = 67" "rounded_percent 3 3 = 100"
  "rounded_percent 23 40 = 57"
  by (simp_all add: rounded_percent_def nearest_double_values math_round_def Let_def)

lemma rounded_percent_Suc:
  "rounded_percent (Suc (Suc 0)) (Suc (Suc (Suc 0))) = 67"
  "rounded_percent (Suc (Suc (Suc 0))) (Suc (Suc (Suc 0))) = 100"
  using rounded_percent_values(2,3) by (simp_all add: numeral_2_eq_2 numeral_3_eq_3)

lemma three_stored:
  assumes "distinct [task_id t1, task_id t2, task_id t3]"
  shows "store_tasks [t1, t2, t3] [] = [(task_id t1, t1), (task_id t2, t2), (task_id t3, t3)]"
  using assms by (auto simp: store_tasks_def)

text \<open>
  C5, as the code has it. Three pending tasks with distinct ids, the first without
  dependencies, the second depending on the first and the third on the second, are
  stored in an empty decomposer. Then \<^verbatim>\<open>getNextExecutableTask()\<close> returns the first task;
  after \<^verbatim>\<open>completeTask\<close> of the first it returns the second; after \<^verbatim>\<open>completeTask\<close> of the
  second it returns the third and \<^verbatim>\<open>getProgress()\<close> is 67, the rounding of 66.67; after
  \<^verbatim>\<open>completeTask\<close> of the third \<^verbatim>\<open>getProgress()\<close> is 100. Priorities and clock readings are
  arbitrary.
\<close>

theorem task_dag_schedule:
  assumes "distinct [task_id t1, task_id t2, task_id t3]"
    and "status t1 = Pending" "status t2 = Pending" "status t3 = Pending"
    and "dependencies t1 = []" "dependencies t2 = [task_id t1]" "dependencies t3 = [task_id t2]"
  shows "let d0 = store_tasks [t1, t2, t3] [];
             d1 = completeTask n1 (task_id t1) d0;
             d2 = completeTask n2 (task_id t2) d1;
             d3 = completeTask n3 (task_id t3) d2
         in getNextExecutableTask d0 = Some t1
          \<and> getNextExecutableTask d1 = Some t2
          \<and> getNextExecutableTask d2 = Some t3
          \<and> getProgress None d2 = 67
          \<and> getProgress None d3 = 100"
proof -
  let ?c1 = "t1\<lparr>status := Completed, completedAt := Some n1\<rparr>"
  let ?c2 = "t2\<lparr>status := Completed, completedAt := Some n2\<rparr>"
  let ?c3 = "t3\<lparr>status := Completed, completedAt := Some n3\<rparr>"
  let ?d0 = "[(task_id t1, t1), (task_id t2, t2), (task_id t3, t3)]"
  let ?d1 = "[(task_id t1, ?c1), (task_id t2, t2), (task_id t3, t3)]"
  let ?d2 = "[(task_id t1, ?c1), (task_id t2, ?c2), (task_id t3, t3)]"
  let ?d3 = "[(task_id t1, ?c1), (task_id t2, ?c2), (task_id t3, ?c3)]"
  have ids: "task_id t1 \<noteq> task_id t2" "task_id t2 \<noteq> task_id t3" "task_id t1 \<noteq> task_id t3"
    "task_id t2 \<noteq> task_id t1" "task_id t3 \<noteq> task_id t2" "task_id t3 \<noteq> task_id t1"
    using assms(1) by auto
  have d0: "store_tasks [t1, t2, t3] [] = ?d0"
    using assms(1) by (rule three_stored)
  have d1: "completeTask n1 (task_id t1) ?d0 = ?d1"
    by (simp add: completeTask_def updateTaskStatus_def Let_def)
  have d2: "completeTask n2 (task_id t2) ?d1 = ?d2"
    using ids by (simp add: completeTask_def updateTaskStatus_def Let_def)
  have d3: "completeTask n3 (task_id t3) ?d2 = ?d3"
    using ids by (simp add: completeTask_def updateTaskStatus_def Let_def)
  have pend0: "set (getPendingTasks ?d0) = {t1, t2, t3}"
    using assms(2-4) by (auto simp: set_getPendingTasks)
  have pend1: "set (getPendingTasks ?d1) = {t2, t3}"
    using assms(2-4) by (auto simp: set_getPendingTasks)
  have pend2: "set (getPendingTasks ?d2) = {t3}"
    using assms(2-4) by (auto simp: set_getPendingTasks)
  have e0: "canExecuteTask ?d0 t1" "\<not> canExecuteTask ?d0 t2" "\<not> canExecuteTask ?d0 t3"
    using ids assms(2-7) by (simp_all add: canExecuteTask_def)
  have e1: "canExecuteTask ?d1 t2" "\<not> canExecuteTask ?d1 t3"
    using ids assms(2-7) by (simp_all add: canExecuteTask_def)
  have e2: "canExecuteTask ?d2 t3"
    using ids assms(2-7) by (simp_all add: canExecuteTask_def)
  have n0: "getNextExecutableTask ?d0 = Some t1"
    unfolding getNextExecutableTask_def
    by (rule find_unique) (use pend0 e0 in blast)+
  have n1: "getNextExecutableTask ?d1 = Some t2"
    unfolding getNextExecutableTask_def
    by (rule find_unique) (use pend1 e1 in blast)+
  have n2: "getNextExecutableTask ?d2 = Some t3"
    unfolding getNextExecutableTask_def
    by (rule find_unique) (use pend2 e2 in blast)+
  have p2: "getProgress None ?d2 = 67"
    using assms(4)
    by (simp add: getProgress_def getTaskStatistics_def Let_def rounded_percent_Suc)
  have p3: "getProgress None ?d3 = 100"
    by (simp add: getProgress_def getTaskStatistics_def Let_def rounded_percent_Suc)
  show ?thesis
    unfolding Let_def d0 d1 d2 d3 by (intro conjI n0 n1 n2 p2 p3)
qed


lemma dag_example_values:
  "dag_example = [(''goal_1_task_1'', dag_t1), (''goal_1_task_2'', dag_t2), (''goal_1_task_3'', dag_t3)]"
  "task_id dag_t1 = ''goal_1_task_1''" "task_id dag_t2 = ''goal_1_task_2''"
  "task_id dag_t3 = ''goal_1_task_3''"
  "status dag_t1 = Pending" "status dag_t2 = Pending" "status dag_t3 = Pending"
  "dependencies dag_t1 = []" "dependencies dag_t2 = [''goal_1_task_1'']"
  "dependencies dag_t3 = [''goal_1_task_2'']"
  by (simp_all add: dag_example_def dag_t1_def dag_t2_def dag_t3_def dag_task_def store_tasks_def)

text \<open>
  The hypotheses of C5 hold for the three tasks of \<open>dag_example\<close>, and the schedule
  follows there.
\<close>

theorem task_dag_schedule_witness:
  "distinct [task_id dag_t1, task_id dag_t2, task_id dag_t3]
   \<and> status dag_t1 = Pending \<and> status dag_t2 = Pending \<and> status dag_t3 = Pending
   \<and> dependencies dag_t1 = [] \<and> dependencies dag_t2 = [task_id dag_t1]
   \<and> dependencies dag_t3 = [task_id dag_t2]
   \<and> getNextExecutableTask dag_example = Some dag_t1
   \<and> getNextExecutableTask (completeTask 1 (task_id dag_t1) dag_example) = Some dag_t2
   \<and> getNextExecutableTask
        (completeTask 2 (task_id dag_t2) (completeTask 1 (task_id dag_t1) dag_example)) = Some dag_t3
   \<and> getProgress None
        (completeTask 2 (task_id dag_t2) (completeTask 1 (task_id dag_t1) dag_example)) = 67
   \<and> getProgress None
        (completeTask 3 (task_id dag_t3)
           (completeTask 2 (task_id dag_t2) (completeTask 1 (task_id dag_t1) dag_example))) = 100"
proof -
  have h: "distinct [task_id dag_t1, task_id dag_t2, task_id dag_t3]"
    "status dag_t1 = Pending" "status dag_t2 = Pending" "status dag_t3 = Pending"
    "dependencies dag_t1 = []" "dependencies dag_t2 = [task_id dag_t1]"
    "dependencies dag_t3 = [task_id dag_t2]"
    by (simp_all add: dag_example_values)
  show ?thesis
    using h task_dag_schedule[OF h, of 1 2 3]
    by (simp add: Let_def dag_example_def)
qed

text \<open>
  C5 as stated fails on \<open>dag_example\<close>: once the first two of the three tasks are
  completed, \<^verbatim>\<open>getProgress()\<close> is not 66.
\<close>

theorem task_dag_progress_counterexample:
  "getProgress None (completeTask 2 ''goal_1_task_2'' (completeTask 1 ''goal_1_task_1'' dag_example))
     \<noteq> 66"
  by (simp add: dag_example_values completeTask_def updateTaskStatus_def Let_def
      getProgress_def getTaskStatistics_def rounded_percent_Suc)

section \<open>Properties of the world observer\<close>

lemma find_SomeD: "find P xs = Some x \<Longrightarrow> P x \<and> x \<in> set xs"
  by (induction xs) (auto split: if_splits)

lemma find_NoneI: "(\<And>x. x \<in> set xs \<Longrightarrow> \<not> P x) \<Longrightarrow> find P xs = None"
  by (induction xs) auto

lemma scan_down_le: "scan_down bt p \<le> 9"
  by (auto simp: scan_down_def split: option.splits dest!: find_SomeD)

lemma scan_down_solid:
  "0 < scan_down bt p \<Longrightarrow> solid_at bt (offset p 0 (- real (scan_down bt p)) 0)"
  by (auto simp: scan_down_def split: option.splits dest!: find_SomeD)

lemma scan_down_open:
  assumes "column_open bt p"
  shows "scan_down bt p = 0"
proof -
  have "find (\<lambda>k. solid_at bt (offset p 0 (- real k) 0)) [0..<10] = None"
    by (rule find_NoneI) (use assms in \<open>simp add: column_open_def list_all_iff\<close>)
  then show ?thesis by (simp add: scan_down_def)
qed

lemma detectCliff_SomeD:
  assumes "detectCliff bt = Some d"
  shows "\<exists>botPos xz. entity bt = Some botPos \<and> xz \<in> set (ring_offsets 3)
           \<and> 4 < scan_down bt (column_pos botPos xz)
           \<and> d = \<lparr> d_type = Cliff,
                    severity = (if scan_down bt (column_pos botPos xz) > 10 then High else Medium),
                    description = DangerousDropText (scan_down bt (column_pos botPos xz)),
                    d_position = Some (column_pos botPos xz) \<rparr>"
proof (cases "entity bt")
  case None
  then show ?thesis using assms by (simp add: detectCliff_def)
next
  case (Some botPos)
  show ?thesis
  proof (cases "find (\<lambda>xz. scan_down bt (column_pos botPos xz) > 4) (ring_offsets 3)")
    case None
    then show ?thesis using assms Some by (simp add: detectCliff_def)
  next
    case found: (Some xz)
    then have "4 < scan_down bt (column_pos botPos xz)" and "xz \<in> set (ring_offsets 3)"
      using find_SomeD[OF found] by simp_all
    moreover have "d = \<lparr> d_type = Cliff,
                    severity = (if scan_down bt (column_pos botPos xz) > 10 then High else Medium),
                    description = DangerousDropText (scan_down bt (column_pos botPos xz)),
                    d_position = Some (column_pos botPos xz) \<rparr>"
      using assms Some found by (simp add: detectCliff_def Let_def)
    ultimately show ?thesis using Some by blast
  qed
qed

text \<open>
  C10. A cliff danger returned by \<^verbatim>\<open>detectCliff\<close> has severity \<^verbatim>\<open>medium\<close>; it stands at a
  neighbour column of the bot, reports a drop between 5 and 9, and the cell at that depth
  of its column is solid, so the column is not open. The scan of any column yields at
  most 9, and 0 for a column none of whose ten scanned cells is solid. When every
  neighbour column is open in this sense, \<^verbatim>\<open>detectCliff\<close> returns nothing.
\<close>

theorem cliff_scan_bounds:
  "(detectCliff bt = Some d \<longrightarrow>
      d_type d = Cliff \<and> severity d = Medium
      \<and> (\<exists>botPos xz n. entity bt = Some botPos \<and> xz \<in> set (ring_offsets 3)
            \<and> d_position d = Some (column_pos botPos xz)
            \<and> description d = DangerousDropText n \<and> 5 \<le> n \<and> n \<le> 9
            \<and> solid_at bt (offset (column_pos botPos xz) 0 (- real n) 0)
            \<and> \<not> column_open bt (column_pos botPos xz)))
   \<and> scan_down bt p \<le> 9
   \<and> (column_open bt p \<longrightarrow> scan_down bt p = 0)
   \<and> ((case entity bt of
          None \<Rightarrow> True
        | Some botPos \<Rightarrow> list_all (\<lambda>xz. column_open bt (column_pos botPos xz)) (ring_offsets 3))
        \<longrightarrow> detectCliff bt = None)"
proof (intro conjI impI)
  assume a: "detectCliff bt = Some d"
  then obtain botPos xz where e: "entity bt = Some botPos" and r: "xz \<in> set (ring_offsets 3)"
    and s: "4 < scan_down bt (column_pos botPos xz)"
    and d: "d = \<lparr> d_type = Cliff,
                    severity = (if scan_down bt (column_pos botPos xz) > 10 then High else Medium),
                    description = DangerousDropText (scan_down bt (column_pos botPos xz)),
                    d_position = Some (column_pos botPos xz) \<rparr>"
    using detectCliff_SomeD by blast
  let ?n = "scan_down bt (column_pos botPos xz)"
  have le: "?n \<le> 9" by (rule scan_down_le)
  show "d_type d = Cliff" using d by simp
  show "severity d = Medium" using d le by simp
  have solid: "solid_at bt (offset (column_pos botPos xz) 0 (- real ?n) 0)"
    using s by (intro scan_down_solid) simp
  have "\<not> column_open bt (column_pos botPos xz)"
    using s scan_down_open[of bt "column_pos botPos xz"] by auto
  then show "\<exists>botPos xz n. entity bt = Some botPos \<and> xz \<in> set (ring_offsets 3)
            \<and> d_position d = Some (column_pos botPos xz)
            \<and> description d = DangerousDropText n \<and> 5 \<le> n \<and> n \<le> 9
            \<and> solid_at bt (offset (column_pos botPos xz) 0 (- real n) 0)
            \<and> \<not> column_open bt (column_pos botPos xz)"
    using e r s le d solid by (intro exI[of _ botPos] exI[of _ xz] exI[of _ ?n]) simp
next
  show "scan_down bt p \<le> 9" by (rule scan_down_le)
next
  assume "column_open bt p"
  then show "scan_down bt p = 0" by (rule scan_down_open)
next
  assume a: "case entity bt of
          None \<Rightarrow> True
        | Some botPos \<Rightarrow> list_all (\<lambda>xz. column_open bt (column_pos botPos xz)) (ring_offsets 3)"
  show "detectCliff bt = None"
  proof (cases "detectCliff bt")
    case None
    then show ?thesis .
  next
    case (Some d)
    then obtain botPos xz where e: "entity bt = Some botPos" and r: "xz \<in> set (ring_offsets 3)"
      and s: "4 < scan_down bt (column_pos botPos xz)"
      using detectCliff_SomeD by blast
    have "column_open bt (column_pos botPos xz)"
      using a e r by (simp add: list_all_iff)
    then have "scan_down bt (column_pos botPos xz) = 0"
      by (rule scan_down_open)
    then show ?thesis using s by simp
  qed
qed

lemma ring3: "ring_offsets 3 = [(-3,-3),(-3,-2),(-3,-1),(-3,0),(-3,1),(-3,2),(-3,3),
  (-2,-3),(-2,-2),(-2,-1),(-2,0),(-2,1),(-2,2),(-2,3),
  (-1,-3),(-1,-2),(-1,-1),(-1,0),(-1,1),(-1,2),(-1,3),
  (0,-3),(0,-2),(0,-1),(0,1),(0,2),(0,3),
  (1,-3),(1,-2),(1,-1),(1,0),(1,1),(1,2),(1,3),
  (2,-3),(2,-2),(2,-1),(2,0),(2,1),(2,2),(2,3),
  (3,-3),(3,-2),(3,-1),(3,0),(3,1),(3,2),(3,3)]"
  by (simp add: ring_offsets_def upto.simps)

lemma upt10: "[0..<10] = [0, 1, 2, 3, 4, 5, 6, 7, 8, 9]"
  by code_simp

lemma ledge_scan: "scan_down ledge_bot first_column = 5"
  by (simp add: scan_down_def upt10 solid_at_def ledge_bot_def offset_def first_column_def)

lemma ledge_cliff: "detectCliff ledge_bot = Some ledge_danger"
proof -
  have "column_pos \<lparr>vx = 0, vy = 0, vz = 0\<rparr> (- 3, - 3) = first_column"
    by (simp add: column_pos_def offset_def first_column_def)
  then show ?thesis
    using ledge_scan by (simp add: detectCliff_def ring3 Let_def ledge_bot_def ledge_danger_def)
qed

lemma void_open: "column_open void_bot q"
  by (simp add: column_open_def solid_at_def void_bot_def list_all_iff)

text \<open>
  The hypotheses of C10 hold at the example clients: \<open>ledge_bot\<close> is in the cliff danger
  \<open>ledge_danger\<close>, with a drop of 5; in the world of \<open>void_bot\<close> the first neighbour
  column is open, as is every other, and no cliff is reported.
\<close>

theorem cliff_scan_bounds_witness:
  "detectCliff ledge_bot = Some ledge_danger
   \<and> d_type ledge_danger = Cliff \<and> severity ledge_danger = Medium
   \<and> description ledge_danger = DangerousDropText 5
   \<and> column_open void_bot first_column \<and> scan_down void_bot first_column = 0
   \<and> list_all (\<lambda>xz. column_open void_bot (column_pos \<lparr>vx = 0, vy = 0, vz = 0\<rparr> xz)) (ring_offsets 3)
   \<and> detectCliff void_bot = None"
proof -
  have h1: "detectCliff ledge_bot = Some ledge_danger"
    by (rule ledge_cliff)
  have h2: "column_open void_bot first_column"
    by (rule void_open)
  have h3: "list_all (\<lambda>xz. column_open void_bot (column_pos \<lparr>vx = 0, vy = 0, vz = 0\<rparr> xz)) (ring_offsets 3)"
    by (simp add: list_all_iff void_open)
  have e: "entity void_bot = Some \<lparr>vx = 0, vy = 0, vz = 0\<rparr>"
    by (simp add: void_bot_def ledge_bot_def)
  show ?thesis
    using h1 h2 h3 e
      cliff_scan_bounds[of ledge_bot ledge_danger first_column]
      cliff_scan_bounds[of void_bot ledge_danger first_column]
    by (simp add: ledge_danger_def)
qed

lemma detectCliff_type: "detectCliff bt = Some d \<Longrightarrow> d_type d = Cliff"
  using detectCliff_SomeD[of bt d] by auto

text \<open>No danger that \<^verbatim>\<open>detectDangers\<close> produces is a low-food danger of severity critical.\<close>

lemma low_food_never_critical:
  "d \<in> set (detectDangers bt les) \<Longrightarrow> \<not> (d_type d = LowFood \<and> severity d = Critical)"
  by (auto simp: detectDangers_def Let_def split: if_splits list.splits option.splits
      dest: detectCliff_type detectCliff_type[OF sym])

text \<open>
  C7. For every danger that \<^verbatim>\<open>detectDangers\<close> produces: a low-health danger of severity
  critical implies a recorded health of at most 5, one of severity high a recorded health
  of at most 10; a low-food danger of severity critical implies a recorded food of at
  most 5, one of severity high a recorded food of at most 10. The health or food written
  into the danger's description is the recorded one. No bound on health or food is
  needed.
\<close>

theorem low_vitals_thresholds:
  assumes "d \<in> set (detectDangers bt les)"
  shows "(d_type d = LowHealth \<and> severity d = Critical \<longrightarrow>
            recorded_health bt \<le> 5 \<and> description d = CriticalHealthText (recorded_health bt))
       \<and> (d_type d = LowHealth \<and> severity d = High \<longrightarrow>
            recorded_health bt \<le> 10 \<and> description d = LowHealthText (recorded_health bt))
       \<and> (d_type d = LowFood \<and> severity d = Critical \<longrightarrow> recorded_food bt \<le> 5)
       \<and> (d_type d = LowFood \<and> severity d = High \<longrightarrow>
            recorded_food bt \<le> 10 \<and> description d = CriticalFoodText (recorded_food bt))"
  using assms
  by (auto simp: detectDangers_def Let_def split: if_splits list.splits option.splits
      dest: detectCliff_type detectCliff_type[OF sym])

lemma hurt_dangers:
  "detectDangers hurt_bot None = [hurt_health_danger, hurt_food_danger]"
  "detectDangers sore_bot None = [sore_health_danger, hurt_food_danger]"
  by (simp_all add: detectDangers_def hurt_bot_def sore_bot_def recorded_health_def
      recorded_food_def hurt_health_danger_def hurt_food_danger_def sore_health_danger_def)

text \<open>
  The hypotheses of C7 hold at the example clients: \<open>hurt_bot\<close>, with health 4 and food
  4, is in a critical low-health danger and a high low-food danger; \<open>sore_bot\<close>, with
  health 8, is in a high low-health danger.
\<close>

theorem low_vitals_thresholds_witness:
  "hurt_health_danger \<in> set (detectDangers hurt_bot None)
   \<and> d_type hurt_health_danger = LowHealth \<and> severity hurt_health_danger = Critical
   \<and> recorded_health hurt_bot \<le> 5
   \<and> hurt_food_danger \<in> set (detectDangers hurt_bot None)
   \<and> d_type hurt_food_danger = LowFood \<and> severity hurt_food_danger = High
   \<and> recorded_food hurt_bot \<le> 10
   \<and> sore_health_danger \<in> set (detectDangers sore_bot None)
   \<and> d_type sore_health_danger = LowHealth \<and> severity sore_health_danger = High
   \<and> recorded_health sore_bot \<le> 10"
proof -
  have h1: "hurt_health_danger \<in> set (detectDangers hurt_bot None)"
    and h2: "hurt_food_danger \<in> set (detectDangers hurt_bot None)"
    and h3: "sore_health_danger \<in> set (detectDangers sore_bot None)"
    by (simp_all add: hurt_dangers)
  show ?thesis
    using h1 h2 h3 low_vitals_thresholds[OF h1] low_vitals_thresholds[OF h2]
      low_vitals_thresholds[OF h3]
    by (simp add: hurt_health_danger_def hurt_food_danger_def sore_health_danger_def)
qed

section \<open>Properties of the inventory tracker\<close>

lemma count_of_nonneg: "counts_positive m \<Longrightarrow> 0 \<le> count_of m k"
proof (cases "map_of m k")
  case None
  then show ?thesis by (simp add: count_of_def)
next
  case (Some c)
  assume "counts_positive m"
  moreover have "(k, c) \<in> set m" using Some by (rule map_of_SomeD)
  ultimately have "0 < c" by (auto simp: counts_positive_def list_all_iff)
  then show ?thesis using Some by (simp add: count_of_def)
qed

lemma map_set_counts_positive:
  "counts_positive m \<Longrightarrow> 0 < c \<Longrightarrow> counts_positive (map_set k c m)"
  by (auto simp: counts_positive_def list_all_iff dest!: in_map_setD)

lemma fold_counts_positive:
  "counts_positive m \<Longrightarrow> list_all (\<lambda>i. 0 < item_count i) items \<Longrightarrow>
   counts_positive (fold (\<lambda>item m. map_set (item_name item) (count_of m (item_name item) + item_count item) m) items m)"
proof (induction items arbitrary: m)
  case Nil
  then show ?case by simp
next
  case (Cons i items)
  have "0 < count_of m (item_name i) + item_count i"
    using Cons.prems count_of_nonneg[of m "item_name i"] by simp
  then have "counts_positive (map_set (item_name i) (count_of m (item_name i) + item_count i) m)"
    using Cons.prems(1) by (rule map_set_counts_positive[rotated])
  then show ?case using Cons.IH Cons.prems(2) by simp
qed

lemma getInventoryMap_positive:
  "stacks_positive inventory \<Longrightarrow> counts_positive (getInventoryMap inventory)"
proof (cases inventory)
  case None
  then show ?thesis by (simp add: getInventoryMap_def counts_positive_def)
next
  case (Some items)
  assume "stacks_positive inventory"
  then have "list_all (\<lambda>i. 0 < item_count i) items"
    using Some by (simp add: stacks_positive_def)
  moreover have "counts_positive []"
    by (simp add: counts_positive_def)
  ultimately show ?thesis
    using Some fold_counts_positive[of "[]" items] by (simp add: getInventoryMap_def)
qed

lemma detect_changes_shape:
  "c \<in> set (detect_changes now previous current) \<Longrightarrow> recorded_shape c"
  by (auto simp: detect_changes_def recorded_shape_def never_changed_def good_change_def
      ghost_removal_def Let_def split: if_splits)

lemma detect_changes_good:
  "counts_positive previous \<Longrightarrow> c \<in> set (detect_changes now previous current) \<Longrightarrow> good_change c"
  by (auto simp: detect_changes_def good_change_def counts_positive_def list_all_iff Let_def
      split: if_splits)

lemma set_js_slice: "set (js_slice start xs) \<subseteq> set xs"
  by (simp add: js_slice_def Let_def set_drop_subset)

lemma onInventoryChange_history:
  "set (changeHistory (onInventoryChange now inventory tr))
     \<subseteq> set (changeHistory tr)
       \<union> set (detect_changes now (previousInventory tr) (getInventoryMap inventory))"
  using set_js_slice[of "- int (it_maxHistorySize tr)"
      "changeHistory tr @ detect_changes now (previousInventory tr) (getInventoryMap inventory)"]
  by (auto simp: onInventoryChange_def Let_def)

lemma apply_event_shape:
  assumes "list_all recorded_shape (changeHistory tr)"
  shows "list_all recorded_shape (changeHistory (apply_tracker_event ev tr))"
proof (cases ev)
  case (InventoryEvent now inventory)
  then show ?thesis
    using assms onInventoryChange_history[of now inventory tr] detect_changes_shape
    by (auto simp: list_all_iff)
next
  case (SnapshotUpdate inventory)
  then show ?thesis using assms by (simp add: updateInventorySnapshot_def)
qed

lemma apply_event_good:
  assumes "list_all good_change (changeHistory tr)" "counts_positive (previousInventory tr)"
    "stacks_positive (event_inventory ev)"
  shows "list_all good_change (changeHistory (apply_tracker_event ev tr))
       \<and> counts_positive (previousInventory (apply_tracker_event ev tr))"
proof (cases ev)
  case (InventoryEvent now inventory)
  then have "counts_positive (getInventoryMap inventory)"
    using assms(3) by (simp add: event_inventory_def getInventoryMap_positive)
  then have "counts_positive (previousInventory (apply_tracker_event ev tr))"
    using InventoryEvent by (simp add: onInventoryChange_def Let_def)
  moreover have "list_all good_change (changeHistory (apply_tracker_event ev tr))"
    using InventoryEvent assms(1,2) onInventoryChange_history[of now inventory tr]
      detect_changes_good[of "previousInventory tr"]
    by (auto simp: list_all_iff)
  ultimately show ?thesis by simp
next
  case (SnapshotUpdate inventory)
  then show ?thesis
    using assms by (simp add: updateInventorySnapshot_def event_inventory_def getInventoryMap_positive)
qed

lemma run_shape:
  "list_all recorded_shape (changeHistory tr) \<Longrightarrow>
   list_all recorded_shape (changeHistory (fold apply_tracker_event evs tr))"
  by (induction evs arbitrary: tr) (simp_all add: apply_event_shape)

lemma run_good:
  "list_all good_change (changeHistory tr) \<Longrightarrow> counts_positive (previousInventory tr) \<Longrightarrow>
   list_all (\<lambda>ev. stacks_positive (event_inventory ev)) evs \<Longrightarrow>
   list_all good_change (changeHistory (fold apply_tracker_event evs tr))"
proof (induction evs arbitrary: tr)
  case Nil
  then show ?case by simp
next
  case (Cons ev evs)
  have "list_all good_change (changeHistory (apply_tracker_event ev tr))
       \<and> counts_positive (previousInventory (apply_tracker_event ev tr))"
    using Cons.prems by (intro apply_event_good) simp_all
  then show ?case using Cons.IH Cons.prems(3) by simp
qed

text \<open>
  C9, as the code has it. In every tracker state reached from the constructor by
  inventory events and snapshot updates, no recorded change has kind \<^verbatim>\<open>changed\<close>, every
  recorded change has \<open>countAfter = countBefore + delta\<close>, and every recorded change
  either has a non-zero delta, being \<^verbatim>\<open>added\<close> exactly when the delta is positive and
  \<^verbatim>\<open>removed\<close> exactly when it is negative, or records the disappearance of an item whose
  aggregate count before was not positive, as \<^verbatim>\<open>removed\<close> with \<open>delta = - countBefore\<close>.
  When every stack of every inventory seen holds at least one item, only the first kind
  occurs.
\<close>

theorem inventory_changes_classified:
  "list_all recorded_shape (changeHistory (fold apply_tracker_event evs (new_InventoryTracker inv0)))
   \<and> (stacks_positive inv0 \<and> list_all (\<lambda>ev. stacks_positive (event_inventory ev)) evs \<longrightarrow>
        list_all good_change (changeHistory (fold apply_tracker_event evs (new_InventoryTracker inv0))))"
proof (intro conjI impI)
  show "list_all recorded_shape (changeHistory (fold apply_tracker_event evs (new_InventoryTracker inv0)))"
    by (rule run_shape) (simp add: new_InventoryTracker_def)
next
  assume a: "stacks_positive inv0 \<and> list_all (\<lambda>ev. stacks_positive (event_inventory ev)) evs"
  show "list_all good_change (changeHistory (fold apply_tracker_event evs (new_InventoryTracker inv0)))"
  proof (rule run_good)
    show "list_all good_change (changeHistory (new_InventoryTracker inv0))"
      by (simp add: new_InventoryTracker_def)
    show "counts_positive (previousInventory (new_InventoryTracker inv0))"
      using a by (simp add: new_InventoryTracker_def getInventoryMap_positive)
    show "list_all (\<lambda>ev. stacks_positive (event_inventory ev)) evs"
      using a by simp
  qed
qed

lemma run_history:
  "changeHistory (fold apply_tracker_event run_events (new_InventoryTracker run_start)) =
     [\<lparr>ch_timestamp = 1, ch_type = Added, ch_item = ''oak_log'', countBefore = 3, countAfter = 5, delta = 2\<rparr>,
      \<lparr>ch_timestamp = 1, ch_type = Added, ch_item = ''stone'', countBefore = 0, countAfter = 2, delta = 2\<rparr>,
      \<lparr>ch_timestamp = 2, ch_type = Removed, ch_item = ''oak_log'', countBefore = 5, countAfter = 0, delta = - 5\<rparr>]"
  by (simp add: run_events_def run_start_def new_InventoryTracker_def onInventoryChange_def
      getInventoryMap_def detect_changes_def count_of_def js_slice_def Let_def)

text \<open>
  The hypotheses of C9 hold for the example run, which records three changes, all
  well classified.
\<close>

theorem inventory_changes_classified_witness:
  "stacks_positive run_start \<and> list_all (\<lambda>ev. stacks_positive (event_inventory ev)) run_events
   \<and> length (changeHistory (fold apply_tracker_event run_events (new_InventoryTracker run_start))) = 3
   \<and> list_all good_change (changeHistory (fold apply_tracker_event run_events (new_InventoryTracker run_start)))"
proof -
  have h: "stacks_positive run_start \<and> list_all (\<lambda>ev. stacks_positive (event_inventory ev)) run_events"
    by (simp add: run_start_def run_events_def stacks_positive_def event_inventory_def)
  show ?thesis
    using h inventory_changes_classified[of run_events run_start]
    by (simp add: run_history)
qed

lemma ghost_history:
  "changeHistory (fold apply_tracker_event ghost_events (new_InventoryTracker ghost_start)) =
     [\<lparr>ch_timestamp = 1, ch_type = Removed, ch_item = ''stick'', countBefore = 0, countAfter = 0,
        delta = 0\<rparr>]"
  by (simp add: ghost_events_def ghost_start_def new_InventoryTracker_def onInventoryChange_def
      getInventoryMap_def detect_changes_def count_of_def js_slice_def Let_def)

text \<open>
  C9 as stated fails on the run with an empty stack: the stack's disappearance is
  recorded as \<^verbatim>\<open>removed\<close> with delta 0, so not every recorded change is well classified.
\<close>

theorem inventory_changes_counterexample:
  "\<not> list_all good_change
       (changeHistory (fold apply_tracker_event ghost_events (new_InventoryTracker ghost_start)))"
  by (simp add: ghost_history good_change_def)

section \<open>Properties of the streaming exchange and the decision cycle\<close>

lemma chatWithTools_usage:
  "chatWithTools dc service msgs tools = Inr r \<Longrightarrow> usage r = Some zero_usage"
  by (auto simp: chatWithTools_def zero_usage_def Let_def
      split: sum.splits prod.splits stream_end.splits)

lemma addMessage_within_budget:
  "getTotalTokens mm \<le> maxTokens (mm_config mm) \<Longrightarrow>
   addMessage msg mm = mm\<lparr>messages := messages mm @ [msg]\<rparr>"
  by (simp add: addMessage_def autoTrim_def getTotalTokens_def Let_def)

lemma saveToDatabase_keeps:
  "messages (saveToDatabase mm) = messages mm"
  "tokenUsage (saveToDatabase mm) = tokenUsage mm"
  "mm_config (saveToDatabase mm) = mm_config mm"
  by (simp_all add: saveToDatabase_def)

lemma cycle_usage_zero:
  assumes "getTotalTokens mm = 0"
  shows "getTotalTokens (decisionCycle_memory dc service tools prompt mm) = 0"
proof (cases "chatWithTools dc service (getMessages (addMessage \<lparr>role = User, content = prompt\<rparr> mm)) tools")
  case (Inl e)
  then show ?thesis
    using assms by (simp add: decisionCycle_memory_def Let_def getTotalTokens_def addMessage_keeps)
next
  case (Inr r)
  then have "usage r = Some zero_usage" by (rule chatWithTools_usage)
  then show ?thesis
    using Inr
    by (simp add: decisionCycle_memory_def Let_def getTotalTokens_def addMessage_keeps
        saveToDatabase_keeps updateTokenUsage_def zero_usage_def)
qed

lemma cycle_config:
  "mm_config (decisionCycle_memory dc service tools prompt mm) = mm_config mm"
  by (simp add: decisionCycle_memory_def Let_def addMessage_keeps saveToDatabase_keeps
      updateTokenUsage_def split: sum.splits option.splits)

lemma cycle_messages:
  assumes "getTotalTokens mm = 0" "0 \<le> maxTokens (mm_config mm)"
  shows "messages (decisionCycle_memory dc service tools prompt mm)
           = transcript dc tools [(prompt, service)] (messages mm)"
proof -
  let ?m1 = "mm\<lparr>messages := messages mm @ [\<lparr>role = User, content = prompt\<rparr>]\<rparr>"
  have a1: "addMessage \<lparr>role = User, content = prompt\<rparr> mm = ?m1"
    using assms by (simp add: addMessage_within_budget)
  show ?thesis
  proof (cases "chatWithTools dc service (messages mm @ [\<lparr>role = User, content = prompt\<rparr>]) tools")
    case (Inl e)
    then show ?thesis
      by (simp add: decisionCycle_memory_def Let_def a1 getMessages_def)
  next
    case (Inr r)
    then have u: "usage r = Some zero_usage" by (rule chatWithTools_usage)
    let ?m2 = "updateTokenUsage zero_usage ?m1"
    have "getTotalTokens ?m2 \<le> maxTokens (mm_config ?m2)"
      using assms(2) by (simp add: getTotalTokens_def updateTokenUsage_def zero_usage_def)
    then have "addMessage msg ?m2 = ?m2\<lparr>messages := messages ?m2 @ [msg]\<rparr>" for msg
      by (rule addMessage_within_budget)
    then show ?thesis
      using Inr u
      by (simp add: decisionCycle_memory_def Let_def a1 getMessages_def saveToDatabase_keeps
          updateTokenUsage_def)
  qed
qed

lemma run_cycles:
  assumes "getTotalTokens mm = 0" "0 \<le> maxTokens (mm_config mm)"
  shows "messages (decision_cycles dc tools cycles mm) = transcript dc tools cycles (messages mm)"
  using assms
proof (induction cycles arbitrary: mm)
  case Nil
  then show ?case by simp
next
  case (Cons c cycles)
  obtain prompt service where c: "c = (prompt, service)" by (cases c)
  let ?mm = "decisionCycle_memory dc service tools prompt mm"
  have "messages (decision_cycles dc tools cycles ?mm) = transcript dc tools cycles (messages ?mm)"
    using Cons.prems by (intro Cons.IH) (simp_all add: cycle_usage_zero cycle_config)
  moreover have "messages ?mm = transcript dc tools [(prompt, service)] (messages mm)"
    using Cons.prems by (rule cycle_messages)
  ultimately show ?case
    using c by (simp add: Let_def split: sum.splits)
qed

lemma run_usage_zero:
  "getTotalTokens mm = 0 \<Longrightarrow> getTotalTokens (decision_cycles dc tools cycles mm) = 0"
proof (induction cycles arbitrary: mm)
  case Nil
  then show ?case by simp
next
  case (Cons c cycles)
  obtain prompt service where c: "c = (prompt, service)" by (cases c)
  show ?case using Cons c by (simp add: cycle_usage_zero)
qed

text \<open>
  With usage zero at the start, a cycle with the usage update and a cycle without it
  leave the same manager.
\<close>

lemma cycle_update_irrelevant:
  assumes "tokenUsage mm = zero_usage"
  shows "decisionCycle_memory dc service tools prompt mm
           = decisionCycle_memory_without_update dc service tools prompt mm"
proof (cases "chatWithTools dc service (getMessages (addMessage \<lparr>role = User, content = prompt\<rparr> mm)) tools")
  case (Inl e)
  then show ?thesis
    by (simp add: decisionCycle_memory_def decisionCycle_memory_without_update_def Let_def)
next
  case (Inr r)
  let ?m1 = "addMessage \<lparr>role = User, content = prompt\<rparr> mm"
  have "usage r = Some zero_usage" using Inr by (rule chatWithTools_usage)
  moreover have "tokenUsage ?m1 = zero_usage"
    using assms by (simp add: addMessage_keeps)
  then have "?m1\<lparr>tokenUsage := zero_usage\<rparr> = ?m1"
    by (metis MemoryManager.surjective MemoryManager.update_convs(3))
  then have "updateTokenUsage zero_usage ?m1 = ?m1"
    by (simp add: updateTokenUsage_def)
  ultimately show ?thesis
    using Inr
    by (simp add: decisionCycle_memory_def decisionCycle_memory_without_update_def Let_def)
qed

lemma cycle_usage_record:
  assumes "tokenUsage mm = zero_usage"
  shows "tokenUsage (decisionCycle_memory_without_update dc service tools prompt mm) = zero_usage"
  using assms
  by (simp add: decisionCycle_memory_without_update_def Let_def addMessage_keeps
      saveToDatabase_keeps split: sum.splits)

lemma run_update_irrelevant:
  "tokenUsage mm = zero_usage \<Longrightarrow>
   decision_cycles dc tools cycles mm = decision_cycles_without_update dc tools cycles mm"
proof (induction cycles arbitrary: mm)
  case Nil
  then show ?case by simp
next
  case (Cons c cycles)
  obtain prompt service where c: "c = (prompt, service)" by (cases c)
  have "decisionCycle_memory dc service tools prompt mm
           = decisionCycle_memory_without_update dc service tools prompt mm"
    using Cons.prems by (rule cycle_update_irrelevant)
  moreover have "tokenUsage (decisionCycle_memory_without_update dc service tools prompt mm) = zero_usage"
    using Cons.prems by (rule cycle_usage_record)
  ultimately show ?case using c Cons.IH by simp
qed

lemma chatWithTools_returns:
  "service (formatMessages msgs) (formatTools tools) = Inr (events, StreamEnd) \<Longrightarrow>
   \<exists>r. chatWithTools dc service msgs tools = Inr r \<and> usage r = Some zero_usage"
  by (simp add: chatWithTools_def zero_usage_def Let_def split: prod.splits)

text \<open>
  C8. Whenever \<^verbatim>\<open>chatWithTools\<close> returns, whatever the messages, the tools and the stream,
  the response carries the usage \<open>(0, 0, 0)\<close>; and it does return whenever the stream opens
  and ends without error. A manager that starts with usage zero and
  goes through any run of decision cycles has recorded prompt usage \<open>0\<close> afterwards, and
  is left exactly as by the same run without the usage updates, so no trim is due to
  them, whatever the budget; and when \<open>maxTokens\<close> is not negative, nothing is trimmed in
  such a run: the stored messages are the whole transcript.
\<close>

theorem streaming_usage_is_zero:
  "(chatWithTools dc service msgs tools = Inr r \<longrightarrow> usage r = Some zero_usage)
   \<and> (service (formatMessages msgs) (formatTools tools) = Inr (events, StreamEnd) \<longrightarrow>
        (\<exists>r'. chatWithTools dc service msgs tools = Inr r' \<and> usage r' = Some zero_usage))
   \<and> getTotalTokens (decision_cycles dc tools cycles (new_MemoryManager db cfg)) = 0
   \<and> decision_cycles dc tools cycles (new_MemoryManager db cfg)
       = decision_cycles_without_update dc tools cycles (new_MemoryManager db cfg)
   \<and> (0 \<le> maxTokens cfg \<longrightarrow>
        getMessages (decision_cycles dc tools cycles (new_MemoryManager db cfg))
          = transcript dc tools cycles [])"
proof (intro conjI impI)
  assume "chatWithTools dc service msgs tools = Inr r"
  then show "usage r = Some zero_usage" by (rule chatWithTools_usage)
next
  assume "service (formatMessages msgs) (formatTools tools) = Inr (events, StreamEnd)"
  then show "\<exists>r'. chatWithTools dc service msgs tools = Inr r' \<and> usage r' = Some zero_usage"
    by (rule chatWithTools_returns)
next
  show "getTotalTokens (decision_cycles dc tools cycles (new_MemoryManager db cfg)) = 0"
    by (rule run_usage_zero) (simp add: getTotalTokens_def new_MemoryManager_def zero_usage_def)
next
  show "decision_cycles dc tools cycles (new_MemoryManager db cfg)
       = decision_cycles_without_update dc tools cycles (new_MemoryManager db cfg)"
    by (rule run_update_irrelevant) (simp add: new_MemoryManager_def)
next
  assume "0 \<le> maxTokens cfg"
  then have "messages (decision_cycles dc tools cycles (new_MemoryManager db cfg))
      = transcript dc tools cycles (messages (new_MemoryManager db cfg))"
    by (intro run_cycles) (simp_all add: getTotalTokens_def new_MemoryManager_def zero_usage_def)
  then show "getMessages (decision_cycles dc tools cycles (new_MemoryManager db cfg))
          = transcript dc tools cycles []"
    by (simp add: getMessages_def new_MemoryManager_def)
qed

lemma decimal_7: "decimal 7 = ''7''"
  by code_simp

lemma example_exchange:
  "chatWithTools Some example_service msgs [] = Inr example_response"
  by (simp add: chatWithTools_def example_service_def example_events_def example_response_def
      formatTools_def on_data_def onToolCall_def zero_usage_def decimal_7 Let_def)

text \<open>
  The hypotheses of C8 hold for the example exchange and a budget of 100 tokens: the
  exchange returns \<open>example_response\<close>, whose usage is zero, and one decision cycle on it
  leaves the prompt and the answer in memory with recorded usage zero.
\<close>

theorem streaming_usage_is_zero_witness:
  "chatWithTools Some example_service [] [] = Inr example_response
   \<and> usage example_response = Some zero_usage
   \<and> example_service (formatMessages []) (formatTools []) = Inr (example_events, StreamEnd)
   \<and> (0::int) \<le> maxTokens \<lparr>maxTokens = 100, keepMessages = 5\<rparr>
   \<and> getTotalTokens (decision_cycles Some [] [(''go'', example_service)]
        (new_MemoryManager new_DatabaseManager \<lparr>maxTokens = 100, keepMessages = 5\<rparr>)) = 0
   \<and> getMessages (decision_cycles Some [] [(''go'', example_service)]
        (new_MemoryManager new_DatabaseManager \<lparr>maxTokens = 100, keepMessages = 5\<rparr>))
       = [\<lparr>role = User, content = ''go''\<rparr>, \<lparr>role = Assistant, content = ''ok''\<rparr>]"
proof -
  have h1: "chatWithTools Some example_service [] [] = Inr example_response"
    by (rule example_exchange)
  have h2: "(0::int) \<le> maxTokens \<lparr>maxTokens = 100, keepMessages = 5\<rparr>"
    by simp
  have h3: "example_service (formatMessages []) (formatTools []) = Inr (example_events, StreamEnd)"
    by (simp add: example_service_def)
  have t: "transcript Some [] [(''go'', example_service)] []
      = [\<lparr>role = User, content = ''go''\<rparr>, \<lparr>role = Assistant, content = ''ok''\<rparr>]"
    by (simp add: example_exchange example_response_def Let_def)
  note th = streaming_usage_is_zero[where dc = Some and service = example_service and msgs = "[]"
        and tools = "[]" and r = example_response and events = example_events
        and cycles = "[(''go'', example_service)]" and db = new_DatabaseManager
        and cfg = "\<lparr>maxTokens = 100, keepMessages = 5\<rparr>"]
  have c1: "usage example_response = Some zero_usage"
    using th h1 by blast
  have c2: "getTotalTokens (decision_cycles Some [] [(''go'', example_service)]
        (new_MemoryManager new_DatabaseManager \<lparr>maxTokens = 100, keepMessages = 5\<rparr>)) = 0"
    using th by blast
  have c3: "getMessages (decision_cycles Some [] [(''go'', example_service)]
        (new_MemoryManager new_DatabaseManager \<lparr>maxTokens = 100, keepMessages = 5\<rparr>))
       = transcript Some [] [(''go'', example_service)] []"
    using th h2 by blast
  show ?thesis
    using h1 h2 h3 c1 c2 c3 t by (simp only: simp_thms)
qed

end
